theory Spec2Isabelle
  imports Main
begin

section \<open>Data model of server.go\<close>

text \<open>
  The program keeps its clients and groups behind pointers (\<open>*Client\<close>, \<open>*Group\<close>) and
  compares clients by pointer (\<open>peer != c\<close>), so the model has an explicit store: a client
  pointer is an address into \<open>clients\<close>, a group pointer an address into \<open>groups\<close>, and a
  nil pointer is \<open>None\<close>. The mutexes are left out: the model runs one call at a time.
  The \<open>fmt.Println\<close> lines only print and are left out as well.

  An instant (\<open>time.Time\<close>) is a number of nanoseconds on the wall clock; a
  \<open>time.Duration\<close> is a signed 64-bit number of nanoseconds. The reading of the
  monotonic clock that \<open>time.Now\<close> attaches to an instant is not modelled.

  A Go map value is either nil or a map. The \<open>Cache\<close> field is \<open>None\<close> for the nil map:
  reading it finds nothing, storing into it panics.
\<close>

type_synonym time = int
type_synonym duration = int
type_synonym caddr = nat
type_synonym gaddr = nat

definition GroupSize :: nat where
  "GroupSize = 15"

record DNSResponse =
  IPAddress :: string
  Timestamp :: time

type_synonym cache = "string \<rightharpoonup> DNSResponse"

record Client =
  ID :: string
  Group :: "gaddr option"
  Cache :: "cache option"
  Server :: string
  CacheFile :: string

record Group =
  ID :: string
  Clients :: "caddr list"

record GroupManager =
  Groups :: "gaddr list"

text \<open>The read \<open>m[k]\<close> of a Go map: the entry, if the map is not nil and holds one.\<close>

definition cache_get :: "cache option \<Rightarrow> string \<Rightarrow> DNSResponse option" where
  "cache_get mp k = (case mp of None \<Rightarrow> None | Some m \<Rightarrow> m k)"

section \<open>The world outside the program\<close>

text \<open>
  What the operating system and the Go libraries answer is a parameter of the model.
  \<open>clock E k\<close> is the k-th reading of the clock, \<open>LookupHost E k d\<close> the answer of
  \<open>net.LookupHost\<close> to the k-th lookup (\<open>Inl\<close> its error), \<open>Marshal\<close> and \<open>Unmarshal\<close>
  are \<open>json.Marshal\<close> and \<open>json.Unmarshal\<close> on a cache (\<open>Unmarshal data dst\<close> gives the
  error, if any, and what the destination map holds afterwards), \<open>ReadOk\<close> says whether
  \<open>ioutil.ReadFile\<close> can read an existing file, and \<open>WriteFile E k path\<close> is the outcome
  of the k-th \<open>ioutil.WriteFile\<close>.
\<close>

datatype write_outcome =
    Written
  | WriteError "string option"  \<comment> \<open>what is left at the path: nothing, or some bytes\<close>

record env =
  clock :: "nat \<Rightarrow> time"
  LookupHost :: "nat \<Rightarrow> string \<Rightarrow> string + string list"
  Marshal :: "cache option \<Rightarrow> string + string"
  Unmarshal :: "string \<Rightarrow> cache option \<Rightarrow> string option \<times> cache option"
  ReadOk :: "string \<Rightarrow> bool"
  WriteFile :: "nat \<Rightarrow> string \<Rightarrow> write_outcome"

text \<open>
  The state: the two stores with their allocation counters, the files on disk, and four
  logs of what a run has done (clock readings taken, domains sent upstream, paths
  written, caches read), so that "is not invoked" and "exactly once" can be stated.
\<close>

record world =
  clients :: "caddr \<Rightarrow> Client"
  groups :: "gaddr \<Rightarrow> Group"
  cnext :: caddr
  gnext :: gaddr
  files :: "string \<rightharpoonup> string"
  ticks :: nat
  lookups :: "string list"
  writes :: "string list"
  reads :: "caddr list"

datatype 'a outcome =
    Returns 'a
  | Panics  \<comment> \<open>nil pointer dereference, or assignment to an entry in a nil map\<close>

section \<open>Time\<close>

definition Hour :: duration where
  "Hour = 3600 * 1000000000"

definition maxDuration :: duration where
  "maxDuration = 2 ^ 63 - 1"

definition minDuration :: duration where
  "minDuration = - (2 ^ 63)"

text \<open>\<open>t.Sub(u)\<close>: the difference, held at the ends of the 64-bit range.\<close>

definition Sub :: "time \<Rightarrow> time \<Rightarrow> duration" where
  "Sub t u =
     (let d = t - u
      in if maxDuration < d then maxDuration
         else if d < minDuration then minDuration
         else d)"

definition Now :: "env \<Rightarrow> world \<Rightarrow> time \<times> world" where
  "Now E w = (clock E (ticks w), w\<lparr>ticks := Suc (ticks w)\<rparr>)"

text \<open>\<open>time.Since(t)\<close> is \<open>time.Now().Sub(t)\<close>.\<close>

definition Since :: "env \<Rightarrow> time \<Rightarrow> world \<Rightarrow> duration \<times> world" where
  "Since E t w = (case Now E w of (now, w') \<Rightarrow> (Sub now t, w'))"

text \<open>
  The test \<open>found && time.Since(response.Timestamp) < time.Hour\<close> of QueryDNS. The
  clock is read only when the entry was found.
\<close>

definition found_fresh :: "env \<Rightarrow> DNSResponse option \<Rightarrow> world \<Rightarrow> bool \<times> world" where
  "found_fresh E r w =
     (case r of
        None \<Rightarrow> (False, w)
      | Some response \<Rightarrow>
          (case Since E (Timestamp response) w of (d, w') \<Rightarrow> (d < Hour, w')))"

text \<open>
  The freshness test in the words of the specification: an entry is fresh iff
  \<open>now - observedAt < TTL\<close>, with a TTL of one hour.
\<close>

definition TTL :: int where
  "TTL = 3600000000000"

definition isFresh :: "DNSResponse \<Rightarrow> time \<Rightarrow> bool" where
  "isFresh e now = (now - Timestamp e < TTL)"

section \<open>Persistence: loadCache, saveCache, NewClient\<close>

text \<open>
  \<open>saveCache\<close>: marshal the cache and, when that worked, write the bytes to the client's
  cache file. The result of \<open>ioutil.WriteFile\<close> is dropped by the code.
\<close>

definition write_file :: "env \<Rightarrow> string \<Rightarrow> string \<Rightarrow> world \<Rightarrow> world" where
  "write_file E path data w =
     (case WriteFile E (length (writes w)) path of
        Written \<Rightarrow> w\<lparr>files := (files w)(path \<mapsto> data), writes := writes w @ [path]\<rparr>
      | WriteError left \<Rightarrow> w\<lparr>files := (files w)(path := left), writes := writes w @ [path]\<rparr>)"

definition saveCache :: "env \<Rightarrow> caddr \<Rightarrow> world \<Rightarrow> world" where
  "saveCache E c w =
     (case Marshal E (Cache (clients w c)) of
        Inl err \<Rightarrow> w
      | Inr data \<Rightarrow> write_file E (CacheFile (clients w c)) data w)"

text \<open>
  \<open>loadCache\<close>: when \<open>os.Stat\<close> finds the file and \<open>ioutil.ReadFile\<close> can read it, unmarshal
  the bytes into the client's cache. The error of \<open>json.Unmarshal\<close> is dropped by the
  code; whatever the decoder left in the map stays, also the nil map that the decoder
  leaves for the JSON value \<open>null\<close>.
\<close>

definition loadCache :: "env \<Rightarrow> caddr \<Rightarrow> world \<Rightarrow> world" where
  "loadCache E c w =
     (case files w (CacheFile (clients w c)) of
        None \<Rightarrow> w
      | Some data \<Rightarrow>
          if ReadOk E (CacheFile (clients w c)) then
            (case Unmarshal E data (Cache (clients w c)) of
               (err, m) \<Rightarrow> w\<lparr>clients := (clients w)(c := (clients w c)\<lparr>Cache := m\<rparr>)\<rparr>)
          else w)"

text \<open>\<open>NewClient\<close> allocates the client, with an empty cache and no group, and loads.\<close>

definition NewClient :: "env \<Rightarrow> string \<Rightarrow> string \<Rightarrow> world \<Rightarrow> caddr \<times> world" where
  "NewClient E ident server w =
     (let cacheFile = ident @ ''_cache.json'';
          c = cnext w;
          client = \<lparr>Client.ID = ident, Group = None, Cache = Some Map.empty, Server = server,
                    CacheFile = cacheFile\<rparr>;
          w1 = w\<lparr>clients := (clients w)(c := client), cnext := Suc c\<rparr>
      in (c, loadCache E c w1))"

section \<open>Group assignment: AddClientToGroup\<close>

text \<open>\<open>%d\<close> of a natural number.\<close>

definition digit :: "nat \<Rightarrow> char" where
  "digit n = char_of (n + 48)"

function show_nat :: "nat \<Rightarrow> string" where
  "show_nat n = (if n < 10 then [digit n] else show_nat (n div 10) @ [digit (n mod 10)])"
  by pat_completeness auto
termination
  by (relation "measure id") auto

declare show_nat.simps [simp del]

text \<open>
  The loop over \<open>gm.Groups\<close>: the first group with fewer than \<open>GroupSize\<close> clients, if
  there is one. The loop body returns at once, so the loop is a search.
\<close>

fun find_space :: "(gaddr \<Rightarrow> Group) \<Rightarrow> gaddr list \<Rightarrow> gaddr option" where
  "find_space gs [] = None"
| "find_space gs (g # rest) =
     (if length (Clients (gs g)) < GroupSize then Some g else find_space gs rest)"

definition set_group :: "caddr \<Rightarrow> gaddr \<Rightarrow> world \<Rightarrow> world" where
  "set_group client g w =
     w\<lparr>clients := (clients w)(client := (clients w client)\<lparr>Group := Some g\<rparr>)\<rparr>"

definition AddClientToGroup :: "GroupManager \<Rightarrow> caddr \<Rightarrow> world \<Rightarrow> GroupManager \<times> world" where
  "AddClientToGroup gm client w =
     (case find_space (groups w) (Groups gm) of
        Some g \<Rightarrow>
          (gm, set_group client g
                 (w\<lparr>groups := (groups w)
                      (g := (groups w g)\<lparr>Clients := Clients (groups w g) @ [client]\<rparr>)\<rparr>))
      | None \<Rightarrow>
          (let g = gnext w;
               newGroup = \<lparr>Group.ID = ''Group-'' @ show_nat (length (Groups gm) + 1),
                           Clients = [client]\<rparr>
           in (gm\<lparr>Groups := Groups gm @ [g]\<rparr>,
               set_group client g (w\<lparr>groups := (groups w)(g := newGroup), gnext := Suc g\<rparr>))))"

text \<open>A run of assignments, one after the other, as the loop of \<open>main\<close> makes them.\<close>

fun add_all :: "GroupManager \<Rightarrow> caddr list \<Rightarrow> world \<Rightarrow> GroupManager \<times> world" where
  "add_all gm [] w = (gm, w)"
| "add_all gm (c # cs) w = (case AddClientToGroup gm c w of (gm', w') \<Rightarrow> add_all gm' cs w')"

text \<open>The manager \<open>main\<close> starts from, \<open>&GroupManager{}\<close>.\<close>

definition empty_manager :: GroupManager where
  "empty_manager = \<lparr>Groups = []\<rparr>"

definition sizes :: "GroupManager \<Rightarrow> world \<Rightarrow> nat list" where
  "sizes gm w = map (\<lambda>g. length (Clients (groups w g))) (Groups gm)"

section \<open>Resolution: queryDNSResolver, QueryDNS\<close>

definition queryDNSResolver :: "env \<Rightarrow> string \<Rightarrow> world \<Rightarrow> (string \<times> string option) \<times> world" where
  "queryDNSResolver E domain w =
     (let w' = w\<lparr>lookups := lookups w @ [domain]\<rparr>
      in case LookupHost E (length (lookups w)) domain of
           Inl err \<Rightarrow>
             (([], Some (''failed to resolve domain '' @ domain @ '': '' @ err)), w')
         | Inr ips \<Rightarrow>
             (case ips of
                ip # _ \<Rightarrow> ((ip, None), w')
              | [] \<Rightarrow> (([], Some (''no A record found for domain '' @ domain)), w')))"

text \<open>\<open>response, found := p.Cache[domain]\<close>, logged.\<close>

definition lookup_cache :: "caddr \<Rightarrow> string \<Rightarrow> world \<Rightarrow> DNSResponse option \<times> world" where
  "lookup_cache p domain w =
     (cache_get (Cache (clients w p)) domain, w\<lparr>reads := reads w @ [p]\<rparr>)"

text \<open>
  \<open>c.Cache[domain] = response\<close>. The assignment panics when the map is nil
  ("assignment to entry in nil map").
\<close>

definition store_cache :: "caddr \<Rightarrow> string \<Rightarrow> DNSResponse \<Rightarrow> world \<Rightarrow> world outcome" where
  "store_cache c domain response w =
     (case Cache (clients w c) of
        None \<Rightarrow> Panics
      | Some m \<Rightarrow>
          Returns (w\<lparr>clients := (clients w)
                     (c := (clients w c)\<lparr>Cache := Some (m(domain \<mapsto> response))\<rparr>)\<rparr>))"

text \<open>
  The loop over the peers: the first peer other than \<open>c\<close> whose entry is found and fresh
  ends the loop. The code stores, saves and returns inside the loop; the model returns
  the entry and QueryDNS does the rest.
\<close>

fun sweep :: "env \<Rightarrow> caddr \<Rightarrow> string \<Rightarrow> caddr list \<Rightarrow> world \<Rightarrow> DNSResponse option \<times> world" where
  "sweep E c domain [] w = (None, w)"
| "sweep E c domain (peer # rest) w =
     (if peer \<noteq> c then
        (case lookup_cache peer domain w of
           (r, w1) \<Rightarrow>
             (case found_fresh E r w1 of
                (fresh, w2) \<Rightarrow> if fresh then (r, w2) else sweep E c domain rest w2))
      else sweep E c domain rest w)"

text \<open>
  QueryDNS in its three parts, in the order of the source: the upstream fallback
  (lines 134-146), the loop over the peers with its store and save (lines 118-133), and
  the look into the client's own cache (lines 108-116). \<open>c.Group.Clients\<close> on a client
  without a group is a nil dereference. In line 142 the clock is read before the
  assignment is made, so a panic there comes after the reading.
\<close>

definition QueryDNS_upstream ::
  "env \<Rightarrow> caddr \<Rightarrow> string \<Rightarrow> world \<Rightarrow> (string \<times> string option) outcome \<times> world" where
  "QueryDNS_upstream E c domain w =
     (case queryDNSResolver E domain w of
        ((ip, Some err), w1) \<Rightarrow> (Returns ([], Some err), w1)
      | ((ip, None), w1) \<Rightarrow>
          (case Now E w1 of
             (now, w2) \<Rightarrow>
               (case store_cache c domain \<lparr>IPAddress = ip, Timestamp = now\<rparr> w2 of
                  Panics \<Rightarrow> (Panics, w2)
                | Returns w3 \<Rightarrow> (Returns (ip, None), saveCache E c w3))))"

definition QueryDNS_peers ::
  "env \<Rightarrow> caddr \<Rightarrow> string \<Rightarrow> world \<Rightarrow> (string \<times> string option) outcome \<times> world" where
  "QueryDNS_peers E c domain w =
     (case Group (clients w c) of
        None \<Rightarrow> (Panics, w)
      | Some g \<Rightarrow>
          (case sweep E c domain (Clients (groups w g)) w of
             (Some response, w1) \<Rightarrow>
               (case store_cache c domain response w1 of
                  Panics \<Rightarrow> (Panics, w1)
                | Returns w2 \<Rightarrow> (Returns (IPAddress response, None), saveCache E c w2))
           | (None, w1) \<Rightarrow> QueryDNS_upstream E c domain w1))"

definition QueryDNS ::
  "env \<Rightarrow> caddr \<Rightarrow> string \<Rightarrow> world \<Rightarrow> (string \<times> string option) outcome \<times> world" where
  "QueryDNS E c domain w =
     (case lookup_cache c domain w of
        (r, w1) \<Rightarrow>
          (case found_fresh E r w1 of
             (fresh, w2) \<Rightarrow>
               (case (fresh, r) of
                  (True, Some response) \<Rightarrow> (Returns (IPAddress response, None), w2)
                | _ \<Rightarrow> QueryDNS_peers E c domain w2)))"

section \<open>The conditions of the specification\<close>

text \<open>
  Client \<open>p\<close> holds an entry for the domain that is fresh at the instant \<open>now\<close>.
\<close>

definition fresh_entry :: "world \<Rightarrow> time \<Rightarrow> string \<Rightarrow> caddr \<Rightarrow> bool" where
  "fresh_entry w now d p =
     (case cache_get (Cache (clients w p)) d of None \<Rightarrow> False | Some e \<Rightarrow> isFresh e now)"

text \<open>
  The first member of the list, in its order, that is not \<open>c\<close> and holds a fresh entry.
\<close>

definition first_fresh_peer :: "world \<Rightarrow> time \<Rightarrow> caddr \<Rightarrow> string \<Rightarrow> caddr list \<Rightarrow> caddr option" where
  "first_fresh_peer w now c d ps = List.find (\<lambda>p. p \<noteq> c \<and> fresh_entry w now d p) ps"

text \<open>
  The specification speaks of one instant, the time of the call, while the code reads
  the clock anew for every entry it tests. \<open>steady\<close> says that no entry of the listed
  clients changes its verdict over the readings a call can take: the reading at the
  start and the next \<open>length ps\<close> ones.
\<close>

definition steady :: "env \<Rightarrow> world \<Rightarrow> string \<Rightarrow> caddr list \<Rightarrow> bool" where
  "steady E w d ps =
     (\<forall>p \<in> set ps. \<forall>k. ticks w \<le> k \<and> k \<le> ticks w + length ps \<longrightarrow>
        fresh_entry w (clock E k) d p = fresh_entry w (clock E (ticks w)) d p)"

text \<open>The upstream resolver fails: \<open>net.LookupHost\<close> gives an error or no address.\<close>

definition upstream_fails :: "env \<Rightarrow> world \<Rightarrow> string \<Rightarrow> bool" where
  "upstream_fails E w d =
     (case LookupHost E (length (lookups w)) d of Inl err \<Rightarrow> True | Inr ips \<Rightarrow> ips = [])"

text \<open>
  The decoder refuses the bytes and leaves the destination map as it was. Go's decoder
  checks the syntax of the whole input before it stores anything, so a truncated or
  garbled snapshot is refused in this way.
\<close>

definition refused :: "env \<Rightarrow> string \<Rightarrow> bool" where
  "refused E data = (\<forall>dst. \<exists>err. Unmarshal E data dst = (Some err, dst))"

text \<open>
  What a call on client \<open>c\<close> may change between \<open>w\<close> and \<open>w'\<close>: the cache of \<open>c\<close> and the
  file at the cache path of \<open>c\<close>, and the logs. Every other client, every group, the
  other fields of \<open>c\<close>, every other file and the allocation counters stay.
\<close>

definition own_cache_only :: "caddr \<Rightarrow> world \<Rightarrow> world \<Rightarrow> bool" where
  "own_cache_only c w w' =
     ((\<forall>p. p \<noteq> c \<longrightarrow> clients w' p = clients w p)
      \<and> groups w' = groups w
      \<and> Client.ID (clients w' c) = Client.ID (clients w c)
      \<and> Group (clients w' c) = Group (clients w c)
      \<and> Server (clients w' c) = Server (clients w c)
      \<and> CacheFile (clients w' c) = CacheFile (clients w c)
      \<and> (\<forall>path. path \<noteq> CacheFile (clients w c) \<longrightarrow> files w' path = files w path)
      \<and> cnext w' = cnext w
      \<and> gnext w' = gnext w)"

text \<open>
  The sizes that first-fit gives after \<open>n\<close> assignments, in creation order: full groups,
  then one group with the rest.
\<close>

definition shape :: "nat \<Rightarrow> nat list" where
  "shape n =
     replicate (n div GroupSize) GroupSize
       @ (if n mod GroupSize = 0 then [] else [n mod GroupSize])"

text \<open>
  The state of the groups after the clients in \<open>S\<close> have been assigned, each once: the
  groups of the manager are distinct and allocated, none is over capacity, no group
  lists a client twice, the members are clients of \<open>S\<close> and point back to their group,
  and every client of \<open>S\<close> is in some group.
\<close>

definition assigned :: "GroupManager \<Rightarrow> world \<Rightarrow> caddr set \<Rightarrow> bool" where
  "assigned gm w S =
     (distinct (Groups gm)
      \<and> (\<forall>g\<in>set (Groups gm).
            g < gnext w
            \<and> length (Clients (groups w g)) \<le> GroupSize
            \<and> distinct (Clients (groups w g))
            \<and> set (Clients (groups w g)) \<subseteq> S
            \<and> (\<forall>c\<in>set (Clients (groups w g)). Group (clients w c) = Some g))
      \<and> (\<forall>c\<in>S. \<exists>g\<in>set (Groups gm). c \<in> set (Clients (groups w g))))"

section \<open>A codec for the scenario\<close>

text \<open>
  A small text codec to run the model on. It is not JSON, but it behaves as
  \<open>encoding/json\<close> and \<open>time.Time\<close> do where the claims depend on the codec:
  \<^item> the nil map is marshalled as \<open>null\<close>, and \<open>null\<close> is unmarshalled as the nil map;
  \<^item> an instant whose year is outside 0..9999 cannot be marshalled, and then the whole
    cache cannot;
  \<^item> the decoder checks the outer syntax before it stores anything, so a truncated
    snapshot is refused with the destination untouched;
  \<^item> the decoder stores entry after entry into the destination map, and an entry it
    cannot decode stops it with an error after the earlier entries have been stored.
  An entry is written \<open>domain=address@nanoseconds;\<close> and a cache is its entries between
  braces. The encoder writes the entries of the domains the scenario uses, in
  alphabetical order.
\<close>

function show_digits :: "int \<Rightarrow> string" where
  "show_digits i =
     (if i < 10 then [digit (nat i)] else show_digits (i div 10) @ [digit (nat (i mod 10))])"
  by pat_completeness auto
termination
  by (relation "measure nat") auto

declare show_digits.simps [simp del]

definition show_int :: "int \<Rightarrow> string" where
  "show_int i = (if i < 0 then CHR ''-'' # show_digits (- i) else show_digits i)"

definition min_instant :: time where
  "min_instant = - 62167219200000000000"

definition max_instant :: time where
  "max_instant = 253402300800000000000"

definition year_in_range :: "time \<Rightarrow> bool" where
  "year_in_range t = (min_instant \<le> t \<and> t < max_instant)"

definition known_domains :: "string list" where
  "known_domains = [''a.com'', ''c.com'', ''old.com'']"

definition encode_entry :: "cache \<Rightarrow> string \<Rightarrow> string" where
  "encode_entry m k =
     (case m k of
        None \<Rightarrow> []
      | Some e \<Rightarrow> k @ ''='' @ IPAddress e @ ''@'' @ show_int (Timestamp e) @ '';'')"

definition out_of_range :: "cache \<Rightarrow> string \<Rightarrow> bool" where
  "out_of_range m k = (case m k of None \<Rightarrow> False | Some e \<Rightarrow> \<not> year_in_range (Timestamp e))"

definition demo_marshal :: "cache option \<Rightarrow> string + string" where
  "demo_marshal mp =
     (case mp of
        None \<Rightarrow> Inr ''null''
      | Some m \<Rightarrow>
          if list_ex (out_of_range m) known_domains
          then Inl ''Time.MarshalJSON: year outside of range [0,9999]''
          else Inr (''{'' @ concat (map (encode_entry m) known_domains) @ ''}''))"

definition digit_val :: "char \<Rightarrow> int option" where
  "digit_val c =
     (let n = (of_char c :: int) in if 48 \<le> n \<and> n \<le> 57 then Some (n - 48) else None)"

fun parse_digits :: "int \<Rightarrow> string \<Rightarrow> int option" where
  "parse_digits acc [] = Some acc"
| "parse_digits acc (c # cs) =
     (case digit_val c of None \<Rightarrow> None | Some v \<Rightarrow> parse_digits (10 * acc + v) cs)"

definition parse_int :: "string \<Rightarrow> int option" where
  "parse_int s =
     (case s of
        [] \<Rightarrow> None
      | c # cs \<Rightarrow>
          if c = CHR ''-'' then
            (if cs = [] then None else map_option uminus (parse_digits 0 cs))
          else parse_digits 0 s)"

definition split_at :: "char \<Rightarrow> string \<Rightarrow> (string \<times> string) option" where
  "split_at c s =
     (if c \<in> set s then Some (takeWhile (\<lambda>x. x \<noteq> c) s, tl (dropWhile (\<lambda>x. x \<noteq> c) s))
      else None)"

fun split_entries :: "string \<Rightarrow> string \<Rightarrow> string list" where
  "split_entries acc [] = (if acc = [] then [] else [rev acc])"
| "split_entries acc (c # cs) =
     (if c = CHR '';'' then rev acc # split_entries [] cs else split_entries (c # acc) cs)"

definition parse_entry :: "string \<Rightarrow> (string \<times> DNSResponse) option" where
  "parse_entry s =
     (case split_at (CHR ''='') s of
        None \<Rightarrow> None
      | Some (k, rest) \<Rightarrow>
          (case split_at (CHR ''@'') rest of
             None \<Rightarrow> None
           | Some (ip, ts) \<Rightarrow>
               (case parse_int ts of
                  None \<Rightarrow> None
                | Some t \<Rightarrow> Some (k, \<lparr>IPAddress = ip, Timestamp = t\<rparr>))))"

fun store_entries :: "cache \<Rightarrow> string list \<Rightarrow> string option \<times> cache" where
  "store_entries m [] = (None, m)"
| "store_entries m (s # rest) =
     (case parse_entry s of
        None \<Rightarrow> (Some (''cannot unmarshal entry '' @ s), m)
      | Some (k, e) \<Rightarrow> store_entries (m(k \<mapsto> e)) rest)"

definition demo_unmarshal :: "string \<Rightarrow> cache option \<Rightarrow> string option \<times> cache option" where
  "demo_unmarshal data dst =
     (if data = ''null'' then (None, None)
      else if 2 \<le> length data \<and> hd data = CHR ''{'' \<and> last data = CHR ''}'' then
        (case store_entries (case dst of None \<Rightarrow> Map.empty | Some m \<Rightarrow> m)
                (split_entries [] (butlast (tl data))) of
           (err, m) \<Rightarrow> (err, Some m))
      else (Some ''unexpected end of JSON input'', dst))"

section \<open>A small scenario\<close>

text \<open>
  One group of three clients. Client 0 and client 1 both hold a fresh entry for
  \<open>a.com\<close> (client 1 the more recent one), client 1 also a stale entry for
  \<open>old.com\<close>, client 2 holds nothing. The clock starts at 5000 seconds and moves one
  microsecond per reading; upstream knows \<open>c.com\<close> only.
\<close>

definition T0 :: time where
  "T0 = 5000000000000"

definition entry_a0 :: DNSResponse where
  "entry_a0 = \<lparr>IPAddress = ''1.2.3.4'', Timestamp = T0 - 600000000000\<rparr>"

definition entry_a1 :: DNSResponse where
  "entry_a1 = \<lparr>IPAddress = ''9.9.9.9'', Timestamp = T0 - 60000000000\<rparr>"

definition entry_old :: DNSResponse where
  "entry_old = \<lparr>IPAddress = ''5.5.5.5'', Timestamp = T0 - 7200000000000\<rparr>"

definition blank_client :: Client where
  "blank_client =
     \<lparr>Client.ID = [], Group = None, Cache = Some Map.empty, Server = [], CacheFile = []\<rparr>"

definition blank_group :: Group where
  "blank_group = \<lparr>Group.ID = [], Clients = []\<rparr>"

definition demo_clients :: "caddr \<Rightarrow> Client" where
  "demo_clients =
     (\<lambda>a. blank_client)
       (0 := \<lparr>Client.ID = ''A'', Group = Some 0, Cache = Some [''a.com'' \<mapsto> entry_a0],
              Server = ''8.8.8.8:53'', CacheFile = ''A_cache.json''\<rparr>,
        1 := \<lparr>Client.ID = ''B'', Group = Some 0,
              Cache = Some [''a.com'' \<mapsto> entry_a1, ''old.com'' \<mapsto> entry_old],
              Server = ''8.8.8.8:53'', CacheFile = ''B_cache.json''\<rparr>,
        2 := \<lparr>Client.ID = ''C'', Group = Some 0, Cache = Some Map.empty,
              Server = ''8.8.8.8:53'', CacheFile = ''C_cache.json''\<rparr>)"

definition demo_world :: world where
  "demo_world =
     \<lparr>clients = demo_clients,
      groups = (\<lambda>a. blank_group)(0 := \<lparr>Group.ID = ''Group-1'', Clients = [0, 1, 2]\<rparr>),
      cnext = 3, gnext = 1, files = Map.empty, ticks = 0, lookups = [], writes = [],
      reads = []\<rparr>"

definition demo_env :: env where
  "demo_env =
     \<lparr>clock = (\<lambda>k. T0 + 1000 * int k),
      LookupHost = (\<lambda>k d. if d = ''c.com'' then Inr [''7.7.7.7'', ''8.8.4.4'']
                           else Inl ''no such host''),
      Marshal = demo_marshal,
      Unmarshal = demo_unmarshal,
      ReadOk = (\<lambda>path. True),
      WriteFile = (\<lambda>k path. Written)\<rparr>"

text \<open>The world before \<open>main\<close> has built anything.\<close>

definition initial_world :: world where
  "initial_world =
     \<lparr>clients = (\<lambda>a. blank_client), groups = (\<lambda>a. blank_group), cnext = 0, gnext = 0,
      files = Map.empty, ticks = 0, lookups = [], writes = [], reads = []\<rparr>"

text \<open>A world whose disk holds a torn snapshot for client \<open>A\<close>.\<close>

definition torn_world :: world where
  "torn_world = initial_world\<lparr>files := [''A_cache.json'' \<mapsto> ''{a.com=1.2.3.4@44'']\<rparr>"

text \<open>
  A world whose disk holds, for client \<open>A\<close>, a snapshot with a good entry and then an
  entry whose timestamp is not a number.
\<close>

definition garbled_world :: world where
  "garbled_world =
     initial_world\<lparr>files :=
       [''A_cache.json'' \<mapsto> ''{a.com=1.2.3.4@4400000000000;old.com=5.5.5.5@soon;}'']\<rparr>"

text \<open>A world whose disk holds the snapshot \<open>null\<close> for client \<open>A\<close>.\<close>

definition null_world :: world where
  "null_world = initial_world\<lparr>files := [''A_cache.json'' \<mapsto> ''null'']\<rparr>"







text \<open>Thirty-three clients, \<open>GroupSize * 2 + 3\<close>.\<close>

definition thirty_three :: "caddr list" where
  "thirty_three = [0..<33]"

text \<open>Fifteen clients, and then the first of them once more.\<close>

definition sixteen_calls :: "caddr list" where
  "sixteen_calls = [0, 1, 2, 3, 4, 5, 6, 7, 8, 9, 10, 11, 12, 13, 14, 0]"

section \<open>Evaluating the scenario\<close>

lemmas demo_defs = demo_world_def demo_clients_def demo_env_def entry_a0_def entry_a1_def
  entry_old_def T0_def blank_client_def blank_group_def

lemmas eval_defs = QueryDNS_def QueryDNS_peers_def QueryDNS_upstream_def queryDNSResolver_def
  lookup_cache_def store_cache_def cache_get_def found_fresh_def Since_def Now_def Sub_def
  Hour_def maxDuration_def minDuration_def saveCache_def write_file_def Let_def

section \<open>Freshness\<close>

lemma Sub_less_Hour: "(Sub t u < Hour) = (t - u < 3600000000000)"
  by (simp add: Sub_def Hour_def maxDuration_def minDuration_def Let_def)

lemma found_fresh_Some:
  "found_fresh E (Some e) w = (isFresh e (clock E (ticks w)), w\<lparr>ticks := Suc (ticks w)\<rparr>)"
  by (simp add: found_fresh_def Since_def Now_def Sub_less_Hour isFresh_def TTL_def)

lemma found_fresh_None: "found_fresh E None w = (False, w)"
  by (simp add: found_fresh_def)

text \<open>
  C5. The test that resolution applies to a found entry is exactly
  \<open>now - observedAt < TTL\<close> at the reading of the clock it takes, with the TTL one hour
  (3600 * 10^9 nanoseconds); the saturation of the 64-bit duration never changes the
  verdict. An entry whose age is exactly one hour is stale.
\<close>

theorem C5_freshness:
  "fst (found_fresh E (Some e) w) = (clock E (ticks w) - Timestamp e < 3600 * 10 ^ 9)
   \<and> fst (found_fresh E (Some e) w) = isFresh e (clock E (ticks w))
   \<and> TTL = 3600 * 10 ^ 9
   \<and> fst (found_fresh E (Some (e\<lparr>Timestamp := clock E (ticks w) - 3600 * 10 ^ 9\<rparr>)) w) = False"
  by (simp add: found_fresh_Some isFresh_def TTL_def)

section \<open>The loop over the peers\<close>

lemma fresh_entry_cong: "clients w' = clients w \<Longrightarrow> fresh_entry w' = fresh_entry w"
  by (rule ext)+ (simp add: fresh_entry_def)

lemma sweep_frame:
  "clients (snd (sweep E c d ps w)) = clients w
   \<and> groups (snd (sweep E c d ps w)) = groups w
   \<and> files (snd (sweep E c d ps w)) = files w
   \<and> writes (snd (sweep E c d ps w)) = writes w
   \<and> lookups (snd (sweep E c d ps w)) = lookups w
   \<and> cnext (snd (sweep E c d ps w)) = cnext w
   \<and> gnext (snd (sweep E c d ps w)) = gnext w
   \<and> ticks w \<le> ticks (snd (sweep E c d ps w))
   \<and> ticks (snd (sweep E c d ps w)) \<le> ticks w + length ps"
proof (induction ps arbitrary: w)
  case Nil
  show ?case by simp
next
  case (Cons p ps)
  show ?case
  proof (cases "p = c")
    case True
    with Cons[of w] show ?thesis by simp
  next
    case False
    show ?thesis
    proof (cases "cache_get (Cache (clients w p)) d")
      case None
      with False Cons[of "w\<lparr>reads := reads w @ [p]\<rparr>"] show ?thesis
        by (simp add: lookup_cache_def found_fresh_None)
    next
      case (Some e)
      with False Cons[of "w\<lparr>reads := reads w @ [p], ticks := Suc (ticks w)\<rparr>"] show ?thesis
        by (simp add: lookup_cache_def found_fresh_Some)
    qed
  qed
qed

lemma sweep_window:
  assumes "\<forall>p\<in>set ps. \<forall>k. ticks w \<le> k \<and> k < ticks w + length ps \<longrightarrow>
             fresh_entry w (clock E k) d p = F p"
  shows "fst (sweep E c d ps w) =
           (case List.find (\<lambda>p. p \<noteq> c \<and> F p) ps of
              None \<Rightarrow> None
            | Some p \<Rightarrow> cache_get (Cache (clients w p)) d)"
  using assms
proof (induction ps arbitrary: w)
  case Nil
  show ?case by simp
next
  case (Cons p ps)
  have here: "fresh_entry w (clock E (ticks w)) d p = F p"
    using Cons.prems by simp
  show ?case
  proof (cases "p = c")
    case True
    have "\<forall>q\<in>set ps. \<forall>k. ticks w \<le> k \<and> k < ticks w + length ps \<longrightarrow>
             fresh_entry w (clock E k) d q = F q"
      using Cons.prems by simp
    from Cons.IH[OF this] True show ?thesis by simp
  next
    case False
    show ?thesis
    proof (cases "cache_get (Cache (clients w p)) d")
      case None
      let ?w1 = "w\<lparr>reads := reads w @ [p]\<rparr>"
      have fe: "fresh_entry ?w1 = fresh_entry w"
        by (rule fresh_entry_cong) simp
      have "\<forall>q\<in>set ps. \<forall>k. ticks ?w1 \<le> k \<and> k < ticks ?w1 + length ps \<longrightarrow>
             fresh_entry ?w1 (clock E k) d q = F q"
        using Cons.prems by (simp add: fe)
      from Cons.IH[OF this] None False here show ?thesis
        by (simp add: lookup_cache_def found_fresh_None fresh_entry_def split: option.splits)
    next
      case (Some e)
      let ?w2 = "w\<lparr>reads := reads w @ [p], ticks := Suc (ticks w)\<rparr>"
      have fe: "fresh_entry ?w2 = fresh_entry w"
        by (rule fresh_entry_cong) simp
      have "\<forall>q\<in>set ps. \<forall>k. ticks ?w2 \<le> k \<and> k < ticks ?w2 + length ps \<longrightarrow>
             fresh_entry ?w2 (clock E k) d q = F q"
        using Cons.prems by (simp add: fe)
      from Cons.IH[OF this] Some False here show ?thesis
        by (simp add: lookup_cache_def found_fresh_Some fresh_entry_def split: option.splits)
    qed
  qed
qed

section \<open>Resolution\<close>

lemma saveCache_frame:
  "clients (saveCache E c w) = clients w
   \<and> groups (saveCache E c w) = groups w
   \<and> lookups (saveCache E c w) = lookups w
   \<and> ticks (saveCache E c w) = ticks w
   \<and> reads (saveCache E c w) = reads w
   \<and> cnext (saveCache E c w) = cnext w
   \<and> gnext (saveCache E c w) = gnext w"
  by (simp add: saveCache_def write_file_def split: sum.splits write_outcome.splits)




lemma QueryDNS_miss:
  assumes "\<not> fresh_entry w (clock E (ticks w)) d c"
  shows "\<exists>w2. QueryDNS E c d w = QueryDNS_peers E c d w2
           \<and> clients w2 = clients w \<and> groups w2 = groups w \<and> files w2 = files w
           \<and> writes w2 = writes w \<and> lookups w2 = lookups w
           \<and> cnext w2 = cnext w \<and> gnext w2 = gnext w
           \<and> ticks w \<le> ticks w2 \<and> ticks w2 \<le> Suc (ticks w)"
proof (cases "cache_get (Cache (clients w c)) d")
  case None
  then have "QueryDNS E c d w = QueryDNS_peers E c d (w\<lparr>reads := reads w @ [c]\<rparr>)"
    by (simp add: QueryDNS_def lookup_cache_def found_fresh_None)
  then show ?thesis
    by (intro exI[of _ "w\<lparr>reads := reads w @ [c]\<rparr>"]) simp
next
  case (Some e)
  with assms have "\<not> isFresh e (clock E (ticks w))"
    by (simp add: fresh_entry_def)
  with Some have "QueryDNS E c d w =
      QueryDNS_peers E c d (w\<lparr>reads := reads w @ [c], ticks := Suc (ticks w)\<rparr>)"
    by (simp add: QueryDNS_def lookup_cache_def found_fresh_Some)
  then show ?thesis
    by (intro exI[of _ "w\<lparr>reads := reads w @ [c], ticks := Suc (ticks w)\<rparr>"]) simp
qed

lemma steady_window:
  assumes st: "steady E w d ps"
    and same: "clients w2 = clients w"
    and lo: "ticks w \<le> ticks w2" and hi: "ticks w2 \<le> Suc (ticks w)"
  shows "\<forall>p\<in>set ps. \<forall>k. ticks w2 \<le> k \<and> k < ticks w2 + length ps \<longrightarrow>
           fresh_entry w2 (clock E k) d p = fresh_entry w (clock E (ticks w)) d p"
proof (intro ballI allI impI)
  fix p k
  assume p: "p \<in> set ps" and k: "ticks w2 \<le> k \<and> k < ticks w2 + length ps"
  from k lo hi have "ticks w \<le> k \<and> k \<le> ticks w + length ps" by arith
  with st p have "fresh_entry w (clock E k) d p = fresh_entry w (clock E (ticks w)) d p"
    unfolding steady_def by blast
  moreover have "fresh_entry w2 = fresh_entry w"
    using same by (rule fresh_entry_cong)
  ultimately show "fresh_entry w2 (clock E k) d p = fresh_entry w (clock E (ticks w)) d p"
    by simp
qed


lemma demo_steady: "steady demo_env demo_world d [0, 1, 2]"
  by (auto simp: steady_def fresh_entry_def cache_get_def isFresh_def TTL_def demo_defs
      split: option.splits)

lemma demo_steady_later:
  assumes "clients w = demo_clients" and "ticks w \<le> 10"
  shows "steady demo_env w d [0, 1, 2]"
  using assms
  by (auto simp: steady_def fresh_entry_def cache_get_def isFresh_def TTL_def demo_clients_def
      demo_env_def entry_a0_def entry_a1_def entry_old_def T0_def blank_client_def
      split: option.splits)

text \<open>
  C1. When the client's own cache holds an entry for the domain that is fresh at the
  reading of the clock the call takes, QueryDNS returns that entry's address with no
  error. The run reads the clock once and the client's own cache once and does nothing
  else: the resolver is not asked, no other cache is read, and the stores, the files
  and the log of writes are as before.
\<close>

theorem C1_local_hit:
  assumes "cache_get (Cache (clients w c)) d = Some e"
    and "isFresh e (clock E (ticks w))"
  shows "QueryDNS E c d w =
           (Returns (IPAddress e, None), w\<lparr>ticks := Suc (ticks w), reads := reads w @ [c]\<rparr>)
         \<and> lookups (snd (QueryDNS E c d w)) = lookups w
         \<and> reads (snd (QueryDNS E c d w)) = reads w @ [c]
         \<and> clients (snd (QueryDNS E c d w)) = clients w
         \<and> groups (snd (QueryDNS E c d w)) = groups w
         \<and> files (snd (QueryDNS E c d w)) = files w
         \<and> writes (snd (QueryDNS E c d w)) = writes w"
  using assms by (simp add: QueryDNS_def lookup_cache_def found_fresh_Some)

text \<open>The scenario: client 0 asks for \<open>a.com\<close>, which it holds.\<close>

theorem C1_local_hit_witness:
  "cache_get (Cache (clients demo_world 0)) ''a.com'' = Some entry_a0
   \<and> isFresh entry_a0 (clock demo_env (ticks demo_world))
   \<and> fst (QueryDNS demo_env 0 ''a.com'' demo_world) = Returns (''1.2.3.4'', None)
   \<and> lookups (snd (QueryDNS demo_env 0 ''a.com'' demo_world)) = []
   \<and> reads (snd (QueryDNS demo_env 0 ''a.com'' demo_world)) = [0]
   \<and> files (snd (QueryDNS demo_env 0 ''a.com'' demo_world)) = Map.empty"
proof -
  have h1: "cache_get (Cache (clients demo_world 0)) ''a.com'' = Some entry_a0"
    by (simp add: cache_get_def demo_world_def demo_clients_def)
  have h2: "isFresh entry_a0 (clock demo_env (ticks demo_world))"
    by (simp add: isFresh_def TTL_def demo_defs)
  have "IPAddress entry_a0 = ''1.2.3.4''"
    by (simp add: entry_a0_def)
  moreover have "lookups demo_world = [] \<and> reads demo_world = [] \<and> files demo_world = Map.empty"
    by (simp add: demo_world_def)
  ultimately show ?thesis
    using h1 h2 C1_local_hit[OF h1 h2] by simp
qed







text \<open>
  The miss everywhere, from the client's own cache to the call of the resolver: the
  state at that moment differs from the start only in the readings and reads logged.
\<close>

lemma QueryDNS_all_miss:
  assumes grp: "Group (clients w c) = Some g"
    and miss: "\<not> fresh_entry w (clock E (ticks w)) d c"
    and st: "steady E w d (Clients (groups w g))"
    and none: "first_fresh_peer w (clock E (ticks w)) c d (Clients (groups w g)) = None"
  shows "\<exists>w3. QueryDNS E c d w = QueryDNS_upstream E c d w3
           \<and> clients w3 = clients w \<and> groups w3 = groups w \<and> files w3 = files w
           \<and> writes w3 = writes w \<and> lookups w3 = lookups w \<and> ticks w \<le> ticks w3"
proof -
  let ?ps = "Clients (groups w g)"
  let ?now = "clock E (ticks w)"
  from QueryDNS_miss[OF miss] obtain w2 where
    q: "QueryDNS E c d w = QueryDNS_peers E c d w2"
    and same: "clients w2 = clients w" "groups w2 = groups w" "files w2 = files w"
      "writes w2 = writes w" "lookups w2 = lookups w"
    and tk: "ticks w \<le> ticks w2" "ticks w2 \<le> Suc (ticks w)"
    by blast
  let ?sw = "sweep E c d ?ps w2"
  have "fst ?sw = (case List.find (\<lambda>p. p \<noteq> c \<and> fresh_entry w ?now d p) ?ps of
                     None \<Rightarrow> None | Some p \<Rightarrow> cache_get (Cache (clients w2 p)) d)"
    by (rule sweep_window) (rule steady_window[OF st same(1) tk])
  with none have nohit: "fst ?sw = None"
    by (simp add: first_fresh_peer_def)
  define w3 where "w3 = snd ?sw"
  have sw: "?sw = (None, w3)"
    using nohit by (simp add: w3_def prod_eq_iff)
  have "QueryDNS E c d w = QueryDNS_upstream E c d w3"
    using q grp same sw by (simp add: QueryDNS_peers_def)
  moreover have "clients w3 = clients w" "groups w3 = groups w"
      "files w3 = files w" "writes w3 = writes w"
      "lookups w3 = lookups w" "ticks w \<le> ticks w3"
    using sweep_frame[of E c d ?ps w2] same tk by (simp_all add: w3_def)
  ultimately show ?thesis by blast
qed

lemma upstream_lookups:
  "lookups (snd (QueryDNS_upstream E c d w)) = lookups w @ [d]"
  by (simp add: QueryDNS_upstream_def queryDNSResolver_def Now_def Let_def saveCache_frame
      store_cache_def split: sum.splits list.splits option.splits)

lemma upstream_answer:
  assumes up: "LookupHost E (length (lookups w3)) d = Inr (ip # rest)"
  shows "QueryDNS_upstream E c d w3 =
           (case store_cache c d \<lparr>IPAddress = ip, Timestamp = clock E (ticks w3)\<rparr>
                   (w3\<lparr>lookups := lookups w3 @ [d], ticks := Suc (ticks w3)\<rparr>) of
              Panics \<Rightarrow> (Panics, w3\<lparr>lookups := lookups w3 @ [d], ticks := Suc (ticks w3)\<rparr>)
            | Returns w5 \<Rightarrow> (Returns (ip, None), saveCache E c w5))"
  using up
  by (simp add: QueryDNS_upstream_def queryDNSResolver_def Now_def Let_def
      split: outcome.splits)



text \<open>
  The scenario: client 2 asks for \<open>c.com\<close>, which no cache holds. The answer comes from
  the resolver and the cache file of client 2 then holds it, stamped with the reading.
\<close>

lemma demo_marshal_c:
  "demo_marshal (Some (Map.empty(''c.com'' \<mapsto> \<lparr>IPAddress = ''7.7.7.7'', Timestamp = 5000000000000\<rparr>)))
     = Inr ''{c.com=7.7.7.7@5000000000000;}''"
  by code_simp

lemma demo_upstream_pair:
  "QueryDNS demo_env 2 ''c.com'' demo_world =
     (Returns (''7.7.7.7'', None),
      demo_world
       \<lparr>clients := demo_clients
          (2 := (demo_clients 2)
             \<lparr>Cache := Some [''c.com'' \<mapsto> \<lparr>IPAddress = ''7.7.7.7'', Timestamp = T0\<rparr>]\<rparr>),
        files := [''C_cache.json'' \<mapsto> ''{c.com=7.7.7.7@5000000000000;}''],
        ticks := 1, lookups := [''c.com''], writes := [''C_cache.json''], reads := [2, 0, 1]\<rparr>)"
  by (simp add: eval_defs demo_defs demo_marshal_c)

lemma demo_upstream_run:
  "snd (QueryDNS demo_env 2 ''c.com'' demo_world) =
     demo_world
       \<lparr>clients := demo_clients
          (2 := (demo_clients 2)
             \<lparr>Cache := Some [''c.com'' \<mapsto> \<lparr>IPAddress = ''7.7.7.7'', Timestamp = T0\<rparr>]\<rparr>),
        files := [''C_cache.json'' \<mapsto> ''{c.com=7.7.7.7@5000000000000;}''],
        ticks := 1, lookups := [''c.com''], writes := [''C_cache.json''], reads := [2, 0, 1]\<rparr>"
  by (simp add: demo_upstream_pair)

lemma demo_upstream_result:
  "fst (QueryDNS demo_env 2 ''c.com'' demo_world) = Returns (''7.7.7.7'', None)"
  by (simp add: demo_upstream_pair)




section \<open>Upstream failure\<close>

lemma upstream_fails_result:
  assumes "upstream_fails E w d"
  shows "\<exists>err. QueryDNS_upstream E c d w = (Returns ([], Some err), w\<lparr>lookups := lookups w @ [d]\<rparr>)"
  using assms
  by (auto simp: upstream_fails_def QueryDNS_upstream_def queryDNSResolver_def Let_def
      split: sum.splits list.splits)

lemma upstream_error:
  assumes "QueryDNS_upstream E c d w = (Returns (a, Some err), w')"
  shows "a = [] \<and> upstream_fails E w d \<and> w' = w\<lparr>lookups := lookups w @ [d]\<rparr>"
  using assms
  by (auto simp: upstream_fails_def QueryDNS_upstream_def queryDNSResolver_def Let_def Now_def
      split: sum.splits list.splits outcome.splits)

lemma peers_error:
  assumes "QueryDNS_peers E c d w = (Returns (a, Some err), w')"
  shows "a = [] \<and> upstream_fails E w d \<and> lookups w' = lookups w @ [d]
         \<and> clients w' = clients w \<and> groups w' = groups w \<and> files w' = files w
         \<and> writes w' = writes w"
proof (cases "Group (clients w c)")
  case None
  with assms show ?thesis by (simp add: QueryDNS_peers_def)
next
  case (Some g)
  let ?sw = "sweep E c d (Clients (groups w g)) w"
  define w1 where "w1 = snd ?sw"
  have fr: "clients w1 = clients w" "groups w1 = groups w"
      "files w1 = files w" "writes w1 = writes w"
      "lookups w1 = lookups w"
    using sweep_frame[of E c d "Clients (groups w g)" w] by (simp_all add: w1_def)
  show ?thesis
  proof (cases "fst ?sw")
    case None
    then have "?sw = (None, w1)" by (simp add: w1_def prod_eq_iff)
    with assms Some have "QueryDNS_upstream E c d w1 = (Returns (a, Some err), w')"
      by (simp add: QueryDNS_peers_def)
    from upstream_error[OF this] fr show ?thesis
      by (simp add: upstream_fails_def)
  next
    case (Some r)
    then have "?sw = (Some r, w1)" by (simp add: w1_def prod_eq_iff)
    with assms \<open>Group (clients w c) = Some g\<close> show ?thesis
      by (simp add: QueryDNS_peers_def split: outcome.splits)
  qed
qed

lemma QueryDNS_error:
  assumes "QueryDNS E c d w = (Returns (a, Some err), w')"
  shows "a = [] \<and> upstream_fails E w d \<and> lookups w' = lookups w @ [d]
         \<and> clients w' = clients w \<and> groups w' = groups w \<and> files w' = files w
         \<and> writes w' = writes w"
proof (cases "fresh_entry w (clock E (ticks w)) d c")
  case True
  then obtain e where "cache_get (Cache (clients w c)) d = Some e" "isFresh e (clock E (ticks w))"
    by (auto simp: fresh_entry_def split: option.splits)
  with assms show ?thesis
    by (simp add: QueryDNS_def lookup_cache_def found_fresh_Some)
next
  case False
  from QueryDNS_miss[OF False] obtain w2 where
    q: "QueryDNS E c d w = QueryDNS_peers E c d w2"
    and same: "clients w2 = clients w" "groups w2 = groups w" "files w2 = files w"
      "writes w2 = writes w" "lookups w2 = lookups w"
    by blast
  from assms q have "QueryDNS_peers E c d w2 = (Returns (a, Some err), w')" by simp
  from peers_error[OF this] same show ?thesis
    by (simp add: upstream_fails_def)
qed

text \<open>
  C4, as amended. Whenever QueryDNS returns an error, the resolver was asked once in that
  call and failed, the address returned is empty, and the caches and the files are
  exactly as before the call: nothing is stored for the domain, and a stale entry that
  was there stays. When no cache holds a fresh entry and the resolver fails, the error
  is returned; and a second call, made under the same conditions in the state the first
  one left, asks the resolver again.
\<close>

theorem C4_upstream_failure:
  "(\<forall>a err w'. QueryDNS E c d w = (Returns (a, Some err), w') \<longrightarrow>
       a = [] \<and> upstream_fails E w d \<and> lookups w' = lookups w @ [d]
       \<and> clients w' = clients w \<and> files w' = files w \<and> writes w' = writes w)
   \<and> (Group (clients w c) = Some g
       \<and> \<not> fresh_entry w (clock E (ticks w)) d c
       \<and> steady E w d (Clients (groups w g))
       \<and> first_fresh_peer w (clock E (ticks w)) c d (Clients (groups w g)) = None
       \<and> upstream_fails E w d \<longrightarrow>
         (\<exists>err w1. QueryDNS E c d w = (Returns ([], Some err), w1)
            \<and> Cache (clients w1 c) = Cache (clients w c)
            \<and> lookups w1 = lookups w @ [d]
            \<and> (\<not> fresh_entry w1 (clock E (ticks w1)) d c
                \<and> steady E w1 d (Clients (groups w1 g))
                \<and> first_fresh_peer w1 (clock E (ticks w1)) c d (Clients (groups w1 g)) = None
                \<longrightarrow> lookups (snd (QueryDNS E c d w1)) = lookups w @ [d, d])))"
proof -
  have p1: "\<forall>a err w'. QueryDNS E c d w = (Returns (a, Some err), w') \<longrightarrow>
       a = [] \<and> upstream_fails E w d \<and> lookups w' = lookups w @ [d]
       \<and> clients w' = clients w \<and> files w' = files w \<and> writes w' = writes w"
  proof (intro allI impI)
    fix a err w'
    assume "QueryDNS E c d w = (Returns (a, Some err), w')"
    from QueryDNS_error[OF this]
    show "a = [] \<and> upstream_fails E w d \<and> lookups w' = lookups w @ [d]
         \<and> clients w' = clients w \<and> files w' = files w \<and> writes w' = writes w"
      by simp
  qed
  have p2: "\<exists>err w1. QueryDNS E c d w = (Returns ([], Some err), w1)
            \<and> Cache (clients w1 c) = Cache (clients w c)
            \<and> lookups w1 = lookups w @ [d]
            \<and> (\<not> fresh_entry w1 (clock E (ticks w1)) d c
                \<and> steady E w1 d (Clients (groups w1 g))
                \<and> first_fresh_peer w1 (clock E (ticks w1)) c d (Clients (groups w1 g)) = None
                \<longrightarrow> lookups (snd (QueryDNS E c d w1)) = lookups w @ [d, d])"
    if h: "Group (clients w c) = Some g
         \<and> \<not> fresh_entry w (clock E (ticks w)) d c
         \<and> steady E w d (Clients (groups w g))
         \<and> first_fresh_peer w (clock E (ticks w)) c d (Clients (groups w g)) = None
         \<and> upstream_fails E w d"
  proof -
    from h obtain w3 where q: "QueryDNS E c d w = QueryDNS_upstream E c d w3"
      and same: "clients w3 = clients w" "lookups w3 = lookups w" "groups w3 = groups w"
      using QueryDNS_all_miss[of w c g E d] by blast
    from h same have "upstream_fails E w3 d" by (simp add: upstream_fails_def)
    from upstream_fails_result[OF this, of c] obtain err where
      r: "QueryDNS_upstream E c d w3 = (Returns ([], Some err), w3\<lparr>lookups := lookups w3 @ [d]\<rparr>)"
      by blast
    define w1 where "w1 = w3\<lparr>lookups := lookups w3 @ [d]\<rparr>"
    have res: "QueryDNS E c d w = (Returns ([], Some err), w1)"
      using q r by (simp add: w1_def)
    have cl: "clients w1 = clients w" and gr: "groups w1 = groups w"
      and lk: "lookups w1 = lookups w @ [d]"
      using same by (simp_all add: w1_def)
    have again: "lookups (snd (QueryDNS E c d w1)) = lookups w @ [d, d]"
      if h1: "\<not> fresh_entry w1 (clock E (ticks w1)) d c
                \<and> steady E w1 d (Clients (groups w1 g))
                \<and> first_fresh_peer w1 (clock E (ticks w1)) c d (Clients (groups w1 g)) = None"
    proof -
      from h cl have "Group (clients w1 c) = Some g" by simp
      with h1 obtain w4 where q4: "QueryDNS E c d w1 = QueryDNS_upstream E c d w4"
        and l4: "lookups w4 = lookups w1"
        using QueryDNS_all_miss[of w1 c g E d] by blast
      show ?thesis
        using q4 l4 lk by (simp add: upstream_lookups)
    qed
    from res cl lk again show ?thesis
      by (intro exI[of _ err] exI[of _ w1]) simp
  qed
  show ?thesis
    using p1 p2 by (intro conjI impI) blast+
qed

text \<open>
  C4 as stated says that after the failure the cache holds no entry for the domain. In
  the scenario client 1 asks for \<open>old.com\<close>, for which it holds a stale entry; the
  resolver fails, the call returns its error, and the stale entry is still in the cache.
\<close>

theorem C4_stale_entry_counterexample:
  "fst (QueryDNS demo_env 1 ''old.com'' demo_world)
     = Returns ([], Some ''failed to resolve domain old.com: no such host'')
   \<and> cache_get (Cache (clients (snd (QueryDNS demo_env 1 ''old.com'' demo_world)) 1)) ''old.com''
     = Some entry_old"
  by (simp add: eval_defs demo_defs)

lemma demo_failed_run:
  "QueryDNS demo_env 1 ''old.com'' demo_world =
     (Returns ([], Some ''failed to resolve domain old.com: no such host''),
      demo_world\<lparr>ticks := 1, lookups := [''old.com''], reads := [1, 0, 2]\<rparr>)"
  by (simp add: eval_defs demo_defs)

text \<open>The same run, and the run after it: the resolver is asked both times.\<close>

theorem C4_upstream_failure_witness:
  "Group (clients demo_world 1) = Some 0
   \<and> \<not> fresh_entry demo_world (clock demo_env (ticks demo_world)) ''old.com'' 1
   \<and> steady demo_env demo_world ''old.com'' (Clients (groups demo_world 0))
   \<and> first_fresh_peer demo_world (clock demo_env (ticks demo_world)) 1 ''old.com''
        (Clients (groups demo_world 0)) = None
   \<and> upstream_fails demo_env demo_world ''old.com''
   \<and> fst (QueryDNS demo_env 1 ''old.com'' demo_world)
        = Returns ([], Some ''failed to resolve domain old.com: no such host'')
   \<and> lookups (snd (QueryDNS demo_env 1 ''old.com'' demo_world)) = [''old.com'']
   \<and> lookups (snd (QueryDNS demo_env 1 ''old.com''
        (snd (QueryDNS demo_env 1 ''old.com'' demo_world)))) = [''old.com'', ''old.com'']"
proof -
  let ?w1 = "demo_world\<lparr>ticks := 1, lookups := [''old.com''], reads := [1, 0, 2]\<rparr>"
  have ps: "Clients (groups demo_world 0) = [0, 1, 2]" "Clients (groups ?w1 0) = [0, 1, 2]"
    by (simp_all add: demo_world_def)
  have h1: "Group (clients demo_world 1) = Some 0"
    by (simp add: demo_world_def demo_clients_def)
  have h2: "\<not> fresh_entry demo_world (clock demo_env (ticks demo_world)) ''old.com'' 1"
    by (simp add: fresh_entry_def cache_get_def isFresh_def TTL_def demo_defs)
  have h3: "steady demo_env demo_world ''old.com'' (Clients (groups demo_world 0))"
    unfolding ps by (rule demo_steady)
  have h4: "first_fresh_peer demo_world (clock demo_env (ticks demo_world)) 1 ''old.com''
              (Clients (groups demo_world 0)) = None"
    by (simp add: first_fresh_peer_def fresh_entry_def cache_get_def isFresh_def TTL_def demo_defs)
  have h5: "upstream_fails demo_env demo_world ''old.com''"
    by (simp add: upstream_fails_def demo_env_def)
  have k2: "\<not> fresh_entry ?w1 (clock demo_env (ticks ?w1)) ''old.com'' 1"
    by (simp add: fresh_entry_def cache_get_def isFresh_def TTL_def demo_defs)
  have k3: "steady demo_env ?w1 ''old.com'' (Clients (groups ?w1 0))"
    unfolding ps by (rule demo_steady_later) (simp_all add: demo_world_def)
  have k4: "first_fresh_peer ?w1 (clock demo_env (ticks ?w1)) 1 ''old.com''
              (Clients (groups ?w1 0)) = None"
    by (simp add: first_fresh_peer_def fresh_entry_def cache_get_def isFresh_def TTL_def demo_defs)
  have l0: "lookups demo_world = []"
    by (simp add: demo_world_def)
  from C4_upstream_failure[of demo_env 1 "''old.com''" demo_world 0] h1 h2 h3 h4 h5
  obtain err w1 where r: "QueryDNS demo_env 1 ''old.com'' demo_world = (Returns ([], Some err), w1)"
    and l1: "lookups w1 = lookups demo_world @ [''old.com'']"
    and again: "\<not> fresh_entry w1 (clock demo_env (ticks w1)) ''old.com'' 1
                \<and> steady demo_env w1 ''old.com'' (Clients (groups w1 0))
                \<and> first_fresh_peer w1 (clock demo_env (ticks w1)) 1 ''old.com''
                     (Clients (groups w1 0)) = None
                \<longrightarrow> lookups (snd (QueryDNS demo_env 1 ''old.com'' w1))
                     = lookups demo_world @ [''old.com'', ''old.com'']"
    by blast
  from r demo_failed_run
  have e: "err = ''failed to resolve domain old.com: no such host''" and w1: "w1 = ?w1"
    by simp_all
  from again k2 k3 k4 have "lookups (snd (QueryDNS demo_env 1 ''old.com'' ?w1))
      = lookups demo_world @ [''old.com'', ''old.com'']"
    unfolding w1 by blast
  with r l1 l0 e w1 h1 h2 h3 h4 h5 show ?thesis
    by simp
qed

section \<open>What a call may change\<close>

lemma own_refl: "own_cache_only c w w"
  by (simp add: own_cache_only_def)

lemma own_trans:
  "own_cache_only c w w1 \<Longrightarrow> own_cache_only c w1 w2 \<Longrightarrow> own_cache_only c w w2"
  by (simp add: own_cache_only_def)

lemma own_same:
  "clients w' = clients w \<Longrightarrow> groups w' = groups w \<Longrightarrow> files w' = files w \<Longrightarrow>
   cnext w' = cnext w \<Longrightarrow> gnext w' = gnext w \<Longrightarrow> own_cache_only c w w'"
  by (simp add: own_cache_only_def)

lemma own_store: "store_cache c d r w = Returns w' \<Longrightarrow> own_cache_only c w w'"
  by (auto simp: own_cache_only_def store_cache_def split: option.splits)

lemma own_save: "own_cache_only c w (saveCache E c w)"
  by (simp add: own_cache_only_def saveCache_def write_file_def
      split: sum.splits write_outcome.splits)

lemma own_store_save:
  "own_cache_only c w
     (snd (case store_cache c d r w of
             Panics \<Rightarrow> (Panics, w)
           | Returns w' \<Rightarrow> (Returns res, saveCache E c w')))"
proof (cases "store_cache c d r w")
  case Panics
  then show ?thesis by (simp add: own_refl)
next
  case (Returns w')
  from own_trans[OF own_store[OF Returns] own_save] Returns show ?thesis by simp
qed

lemma own_sweep: "own_cache_only c w (snd (sweep E c d ps w))"
  using sweep_frame[of E c d ps w] by (intro own_same) simp_all

lemma own_upstream: "own_cache_only c w (snd (QueryDNS_upstream E c d w))"
proof (cases "LookupHost E (length (lookups w)) d")
  case (Inl err)
  then show ?thesis
    by (simp add: QueryDNS_upstream_def queryDNSResolver_def Let_def own_cache_only_def)
next
  case (Inr ips)
  show ?thesis
  proof (cases ips)
    case Nil
    with Inr show ?thesis
      by (simp add: QueryDNS_upstream_def queryDNSResolver_def Let_def own_cache_only_def)
  next
    case (Cons ip rest)
    let ?w2 = "w\<lparr>lookups := lookups w @ [d], ticks := Suc (ticks w)\<rparr>"
    have "own_cache_only c w ?w2"
      by (simp add: own_cache_only_def)
    from own_trans[OF this own_store_save]
    show ?thesis
      using Inr Cons unfolding upstream_answer[of E w d ip rest c, OF Inr[unfolded Cons]]
      by simp
  qed
qed

lemma own_peers: "own_cache_only c w (snd (QueryDNS_peers E c d w))"
proof (cases "Group (clients w c)")
  case None
  then show ?thesis by (simp add: QueryDNS_peers_def own_refl)
next
  case (Some g)
  let ?sw = "sweep E c d (Clients (groups w g)) w"
  define w1 where "w1 = snd ?sw"
  have o1: "own_cache_only c w w1"
    unfolding w1_def by (rule own_sweep)
  show ?thesis
  proof (cases "fst ?sw")
    case None
    then have "?sw = (None, w1)" by (simp add: w1_def prod_eq_iff)
    with Some have "QueryDNS_peers E c d w = QueryDNS_upstream E c d w1"
      by (simp add: QueryDNS_peers_def)
    with own_trans[OF o1 own_upstream] show ?thesis by simp
  next
    case (Some r)
    then have "?sw = (Some r, w1)" by (simp add: w1_def prod_eq_iff)
    with \<open>Group (clients w c) = Some g\<close>
    have "QueryDNS_peers E c d w =
            (case store_cache c d r w1 of
               Panics \<Rightarrow> (Panics, w1)
             | Returns w2 \<Rightarrow> (Returns (IPAddress r, None), saveCache E c w2))"
      by (simp add: QueryDNS_peers_def)
    with own_trans[OF o1 own_store_save] show ?thesis by simp
  qed
qed

lemma own_QueryDNS: "own_cache_only c w (snd (QueryDNS E c d w))"
proof (cases "fresh_entry w (clock E (ticks w)) d c")
  case True
  then obtain e where "cache_get (Cache (clients w c)) d = Some e" "isFresh e (clock E (ticks w))"
    by (auto simp: fresh_entry_def split: option.splits)
  then show ?thesis
    by (simp add: QueryDNS_def lookup_cache_def found_fresh_Some own_cache_only_def)
next
  case False
  from QueryDNS_miss[OF False] obtain w2 where
    q: "QueryDNS E c d w = QueryDNS_peers E c d w2"
    and same: "clients w2 = clients w" "groups w2 = groups w" "files w2 = files w"
      "cnext w2 = cnext w" "gnext w2 = gnext w"
    by blast
  have "own_cache_only c w w2"
    using same by (rule own_same)
  from own_trans[OF this own_peers] q show ?thesis by simp
qed

text \<open>
  C10. A call of QueryDNS on client \<open>c\<close> leaves every other client as it was (its cache
  included), leaves every group as it was, leaves the ID, Group, Server and CacheFile of
  \<open>c\<close> as they were, and leaves every file other than the cache file of \<open>c\<close> as it was.
  Only the cache of \<open>c\<close> and its cache file can differ.
\<close>

theorem C10_frame:
  "(\<forall>p. p \<noteq> c \<longrightarrow> clients (snd (QueryDNS E c d w)) p = clients w p)
   \<and> groups (snd (QueryDNS E c d w)) = groups w
   \<and> Client.ID (clients (snd (QueryDNS E c d w)) c) = Client.ID (clients w c)
   \<and> Group (clients (snd (QueryDNS E c d w)) c) = Group (clients w c)
   \<and> Server (clients (snd (QueryDNS E c d w)) c) = Server (clients w c)
   \<and> CacheFile (clients (snd (QueryDNS E c d w)) c) = CacheFile (clients w c)
   \<and> (\<forall>path. path \<noteq> CacheFile (clients w c) \<longrightarrow>
         files (snd (QueryDNS E c d w)) path = files w path)"
  using own_QueryDNS[of c w E d] by (simp add: own_cache_only_def)

text \<open>
  The scenario: client 2 asks for \<open>c.com\<close> and the answer comes from upstream. Its own
  cache and file change; client 0 and the file of client 0 do not.
\<close>

theorem C10_frame_witness:
  "(0::nat) \<noteq> 2 \<and> ''A_cache.json'' \<noteq> CacheFile (clients demo_world 2)
   \<and> clients (snd (QueryDNS demo_env 2 ''c.com'' demo_world)) 0 = clients demo_world 0
   \<and> files (snd (QueryDNS demo_env 2 ''c.com'' demo_world)) ''A_cache.json''
        = files demo_world ''A_cache.json''
   \<and> Cache (clients (snd (QueryDNS demo_env 2 ''c.com'' demo_world)) 2)
        \<noteq> Cache (clients demo_world 2)
   \<and> files (snd (QueryDNS demo_env 2 ''c.com'' demo_world)) ''C_cache.json''
        \<noteq> files demo_world ''C_cache.json''"
proof -
  have h1: "(0::nat) \<noteq> 2" by simp
  have h2: "''A_cache.json'' \<noteq> CacheFile (clients demo_world 2)"
    by (simp add: demo_world_def demo_clients_def)
  have c: "cache_get (Cache (clients (snd (QueryDNS demo_env 2 ''c.com'' demo_world)) 2)) ''c.com''
             \<noteq> cache_get (Cache (clients demo_world 2)) ''c.com''"
    by (simp add: demo_upstream_run) (simp add: demo_world_def demo_clients_def cache_get_def)
  have f: "files (snd (QueryDNS demo_env 2 ''c.com'' demo_world)) ''C_cache.json''
        \<noteq> files demo_world ''C_cache.json''"
    by (simp add: demo_upstream_run) (simp add: demo_world_def)
  from c have c': "Cache (clients (snd (QueryDNS demo_env 2 ''c.com'' demo_world)) 2)
        \<noteq> Cache (clients demo_world 2)"
    by metis
  from C10_frame[of 2 demo_env "''c.com''" demo_world] h1 h2 c' f
  show ?thesis by simp
qed

section \<open>Persistence\<close>

lemma found_fresh_WriteFile:
  "found_fresh (E\<lparr>WriteFile := wfile\<rparr>) r w = found_fresh E r w"
  by (simp add: found_fresh_def Since_def Now_def split: option.splits)

lemma sweep_WriteFile:
  "sweep (E\<lparr>WriteFile := wfile\<rparr>) c d ps w = sweep E c d ps w"
  by (induction ps arbitrary: w) (simp_all add: found_fresh_WriteFile split: prod.splits)

lemma upstream_WriteFile:
  "fst (QueryDNS_upstream (E\<lparr>WriteFile := wfile\<rparr>) c d w) = fst (QueryDNS_upstream E c d w)
   \<and> clients (snd (QueryDNS_upstream (E\<lparr>WriteFile := wfile\<rparr>) c d w))
       = clients (snd (QueryDNS_upstream E c d w))"
  by (simp add: QueryDNS_upstream_def queryDNSResolver_def Now_def Let_def saveCache_frame
      split: sum.splits list.splits outcome.splits)

lemma peers_WriteFile:
  "fst (QueryDNS_peers (E\<lparr>WriteFile := wfile\<rparr>) c d w) = fst (QueryDNS_peers E c d w)
   \<and> clients (snd (QueryDNS_peers (E\<lparr>WriteFile := wfile\<rparr>) c d w))
       = clients (snd (QueryDNS_peers E c d w))"
  by (simp add: QueryDNS_peers_def sweep_WriteFile upstream_WriteFile saveCache_frame
      split: option.splits prod.splits outcome.splits)

lemma QueryDNS_WriteFile:
  "fst (QueryDNS (E\<lparr>WriteFile := wfile\<rparr>) c d w) = fst (QueryDNS E c d w)
   \<and> clients (snd (QueryDNS (E\<lparr>WriteFile := wfile\<rparr>) c d w))
       = clients (snd (QueryDNS E c d w))"
  by (simp add: QueryDNS_def found_fresh_WriteFile peers_WriteFile
      split: option.splits prod.splits bool.splits)

lemma NewClient_missing:
  assumes "files w (ident @ ''_cache.json'') = None"
  shows "Cache (clients (snd (NewClient E ident server w)) (fst (NewClient E ident server w)))
           = Some Map.empty"
  using assms by (simp add: NewClient_def loadCache_def Let_def)

lemma NewClient_unreadable:
  assumes "\<not> ReadOk E (ident @ ''_cache.json'')"
  shows "Cache (clients (snd (NewClient E ident server w)) (fst (NewClient E ident server w)))
           = Some Map.empty"
  using assms by (simp add: NewClient_def loadCache_def Let_def split: option.splits)

lemma NewClient_loaded:
  assumes "files w (ident @ ''_cache.json'') = Some data"
    and "ReadOk E (ident @ ''_cache.json'')"
  shows "Cache (clients (snd (NewClient E ident server w)) (fst (NewClient E ident server w)))
           = snd (Unmarshal E data (Some Map.empty))"
  using assms by (simp add: NewClient_def loadCache_def Let_def split: prod.splits)

lemma NewClient_refused:
  assumes "files w (ident @ ''_cache.json'') = Some data" and "refused E data"
  shows "Cache (clients (snd (NewClient E ident server w)) (fst (NewClient E ident server w)))
           = Some Map.empty"
proof (cases "ReadOk E (ident @ ''_cache.json'')")
  case True
  from assms(2) obtain err where "Unmarshal E data (Some Map.empty) = (Some err, Some Map.empty)"
    unfolding refused_def by blast
  with NewClient_loaded[OF assms(1) True] show ?thesis by simp
next
  case False
  then show ?thesis by (rule NewClient_unreadable)
qed

text \<open>
  C9, as amended. A new client whose snapshot file is missing or cannot be read has an
  empty cache. For a file that is read, the cache of the new client is exactly what the
  decoder left in the empty map it was given, whether or not it reported an error: the
  empty map for a snapshot refused outright (as a truncated one is), the entries decoded
  before the error for a snapshot that goes wrong part-way. NewClient has no error to
  return. And the outcome of \<open>ioutil.WriteFile\<close> reaches neither the result of QueryDNS
  nor the clients in memory: with any other behaviour of the disk on writes (failing
  ones included) the call returns the same and leaves the same caches.
\<close>

theorem C9_persistence_absorbed:
  "(files w (ident @ ''_cache.json'') = None \<longrightarrow>
      Cache (clients (snd (NewClient E ident server w)) (fst (NewClient E ident server w)))
        = Some Map.empty)
   \<and> (\<forall>data. files w (ident @ ''_cache.json'') = Some data
          \<and> (refused E data \<or> \<not> ReadOk E (ident @ ''_cache.json'')) \<longrightarrow>
      Cache (clients (snd (NewClient E ident server w)) (fst (NewClient E ident server w)))
        = Some Map.empty)
   \<and> (\<forall>data. files w (ident @ ''_cache.json'') = Some data
          \<and> ReadOk E (ident @ ''_cache.json'') \<longrightarrow>
      Cache (clients (snd (NewClient E ident server w)) (fst (NewClient E ident server w)))
        = snd (Unmarshal E data (Some Map.empty)))
   \<and> fst (QueryDNS (E\<lparr>WriteFile := wfile\<rparr>) c d w) = fst (QueryDNS E c d w)
   \<and> clients (snd (QueryDNS (E\<lparr>WriteFile := wfile\<rparr>) c d w)) = clients (snd (QueryDNS E c d w))"
proof -
  have a: "files w (ident @ ''_cache.json'') = None \<longrightarrow>
      Cache (clients (snd (NewClient E ident server w)) (fst (NewClient E ident server w)))
        = Some Map.empty"
    by (simp add: NewClient_missing)
  have b: "\<forall>data. files w (ident @ ''_cache.json'') = Some data
          \<and> (refused E data \<or> \<not> ReadOk E (ident @ ''_cache.json'')) \<longrightarrow>
      Cache (clients (snd (NewClient E ident server w)) (fst (NewClient E ident server w)))
        = Some Map.empty"
    using NewClient_refused NewClient_unreadable by blast
  have l: "\<forall>data. files w (ident @ ''_cache.json'') = Some data
          \<and> ReadOk E (ident @ ''_cache.json'') \<longrightarrow>
      Cache (clients (snd (NewClient E ident server w)) (fst (NewClient E ident server w)))
        = snd (Unmarshal E data (Some Map.empty))"
    using NewClient_loaded by blast
  show ?thesis
    by (rule conjI[OF a conjI[OF b conjI[OF l QueryDNS_WriteFile]]])
qed

text \<open>
  C9 as stated says that a corrupt snapshot gives an empty cache. The snapshot of the
  garbled world holds a good entry and then one whose timestamp is not a number: the
  decoder reports an error, \<open>loadCache\<close> drops it, and the entry decoded before the
  error is in the cache of the new client.
\<close>

lemma demo_garbled:
  "demo_unmarshal ''{a.com=1.2.3.4@4400000000000;old.com=5.5.5.5@soon;}'' (Some Map.empty)
     = (Some ''cannot unmarshal entry old.com=5.5.5.5@soon'',
        Some [''a.com'' \<mapsto> \<lparr>IPAddress = ''1.2.3.4'', Timestamp = 4400000000000\<rparr>])"
  by (simp add: demo_unmarshal_def parse_entry_def split_at_def parse_int_def digit_val_def)

theorem C9_garbled_snapshot_counterexample:
  "files garbled_world (''A'' @ ''_cache.json'')
     = Some ''{a.com=1.2.3.4@4400000000000;old.com=5.5.5.5@soon;}''
   \<and> fst (Unmarshal demo_env ''{a.com=1.2.3.4@4400000000000;old.com=5.5.5.5@soon;}''
            (Some Map.empty))
     = Some ''cannot unmarshal entry old.com=5.5.5.5@soon''
   \<and> cache_get (Cache (clients (snd (NewClient demo_env ''A'' ''8.8.8.8:53'' garbled_world))
                          (fst (NewClient demo_env ''A'' ''8.8.8.8:53'' garbled_world)))) ''a.com''
     = Some \<lparr>IPAddress = ''1.2.3.4'', Timestamp = 4400000000000\<rparr>
   \<and> Cache (clients (snd (NewClient demo_env ''A'' ''8.8.8.8:53'' garbled_world))
               (fst (NewClient demo_env ''A'' ''8.8.8.8:53'' garbled_world)))
     \<noteq> Some Map.empty"
proof -
  have u: "Unmarshal demo_env ''{a.com=1.2.3.4@4400000000000;old.com=5.5.5.5@soon;}''
             (Some Map.empty)
     = (Some ''cannot unmarshal entry old.com=5.5.5.5@soon'',
        Some [''a.com'' \<mapsto> \<lparr>IPAddress = ''1.2.3.4'', Timestamp = 4400000000000\<rparr>])"
    by (simp add: demo_env_def demo_garbled)
  have f: "files garbled_world (''A'' @ ''_cache.json'')
     = Some ''{a.com=1.2.3.4@4400000000000;old.com=5.5.5.5@soon;}''"
    by (simp add: garbled_world_def)
  have r: "ReadOk demo_env (''A'' @ ''_cache.json'')"
    by (simp add: demo_env_def)
  have c: "Cache (clients (snd (NewClient demo_env ''A'' ''8.8.8.8:53'' garbled_world))
               (fst (NewClient demo_env ''A'' ''8.8.8.8:53'' garbled_world)))
     = Some [''a.com'' \<mapsto> \<lparr>IPAddress = ''1.2.3.4'', Timestamp = 4400000000000\<rparr>]"
    using NewClient_loaded[OF f r] u by simp
  have g: "cache_get (Cache (clients (snd (NewClient demo_env ''A'' ''8.8.8.8:53'' garbled_world))
                          (fst (NewClient demo_env ''A'' ''8.8.8.8:53'' garbled_world)))) ''a.com''
     = Some \<lparr>IPAddress = ''1.2.3.4'', Timestamp = 4400000000000\<rparr>"
    unfolding c by (simp add: cache_get_def)
  have n: "Cache (clients (snd (NewClient demo_env ''A'' ''8.8.8.8:53'' garbled_world))
               (fst (NewClient demo_env ''A'' ''8.8.8.8:53'' garbled_world)))
     \<noteq> Some Map.empty"
  proof
    assume "Cache (clients (snd (NewClient demo_env ''A'' ''8.8.8.8:53'' garbled_world))
               (fst (NewClient demo_env ''A'' ''8.8.8.8:53'' garbled_world)))
       = Some Map.empty"
    with g show False by (simp add: cache_get_def)
  qed
  from f u g n show ?thesis by simp
qed


text \<open>
  The scenario: no file; a torn file; the garbled file; and the upstream run of client
  2 on a disk where every write fails.
\<close>

lemma demo_refused: "refused demo_env ''{a.com=1.2.3.4@44''"
  by (simp add: refused_def demo_env_def demo_unmarshal_def)

theorem C9_persistence_absorbed_witness:
  "files initial_world (''A'' @ ''_cache.json'') = None
   \<and> Cache (clients (snd (NewClient demo_env ''A'' ''8.8.8.8:53'' initial_world))
               (fst (NewClient demo_env ''A'' ''8.8.8.8:53'' initial_world))) = Some Map.empty
   \<and> files torn_world (''A'' @ ''_cache.json'') = Some ''{a.com=1.2.3.4@44''
   \<and> refused demo_env ''{a.com=1.2.3.4@44''
   \<and> Cache (clients (snd (NewClient demo_env ''A'' ''8.8.8.8:53'' torn_world))
               (fst (NewClient demo_env ''A'' ''8.8.8.8:53'' torn_world))) = Some Map.empty
   \<and> files garbled_world (''A'' @ ''_cache.json'')
       = Some ''{a.com=1.2.3.4@4400000000000;old.com=5.5.5.5@soon;}''
   \<and> ReadOk demo_env (''A'' @ ''_cache.json'')
   \<and> Cache (clients (snd (NewClient demo_env ''A'' ''8.8.8.8:53'' garbled_world))
               (fst (NewClient demo_env ''A'' ''8.8.8.8:53'' garbled_world)))
       = Some [''a.com'' \<mapsto> \<lparr>IPAddress = ''1.2.3.4'', Timestamp = 4400000000000\<rparr>]
   \<and> fst (QueryDNS (demo_env\<lparr>WriteFile := (\<lambda>k path. WriteError None)\<rparr>) 2 ''c.com'' demo_world)
       = Returns (''7.7.7.7'', None)
   \<and> cache_get (Cache (clients (snd (QueryDNS (demo_env\<lparr>WriteFile := (\<lambda>k path. WriteError None)\<rparr>)
                              2 ''c.com'' demo_world)) 2)) ''c.com''
       = Some \<lparr>IPAddress = ''7.7.7.7'', Timestamp = T0\<rparr>"
proof -
  have h1: "files initial_world (''A'' @ ''_cache.json'') = None"
    by (simp add: initial_world_def)
  have h2: "files torn_world (''A'' @ ''_cache.json'') = Some ''{a.com=1.2.3.4@44''"
    by (simp add: torn_world_def)
  note h3 = demo_refused
  have h4: "files garbled_world (''A'' @ ''_cache.json'')
       = Some ''{a.com=1.2.3.4@4400000000000;old.com=5.5.5.5@soon;}''"
    by (simp add: garbled_world_def)
  have h5: "ReadOk demo_env (''A'' @ ''_cache.json'')"
    by (simp add: demo_env_def)
  from C9_persistence_absorbed[of initial_world "''A''" demo_env "''8.8.8.8:53''"] h1
  have a: "Cache (clients (snd (NewClient demo_env ''A'' ''8.8.8.8:53'' initial_world))
               (fst (NewClient demo_env ''A'' ''8.8.8.8:53'' initial_world))) = Some Map.empty"
    by blast
  from C9_persistence_absorbed[of torn_world "''A''" demo_env "''8.8.8.8:53''"] h2 h3
  have b: "Cache (clients (snd (NewClient demo_env ''A'' ''8.8.8.8:53'' torn_world))
               (fst (NewClient demo_env ''A'' ''8.8.8.8:53'' torn_world))) = Some Map.empty"
    by blast
  from C9_persistence_absorbed[of garbled_world "''A''" demo_env "''8.8.8.8:53''"] h4 h5
  have "Cache (clients (snd (NewClient demo_env ''A'' ''8.8.8.8:53'' garbled_world))
               (fst (NewClient demo_env ''A'' ''8.8.8.8:53'' garbled_world)))
       = snd (Unmarshal demo_env ''{a.com=1.2.3.4@4400000000000;old.com=5.5.5.5@soon;}''
                (Some Map.empty))"
    by blast
  then have g: "Cache (clients (snd (NewClient demo_env ''A'' ''8.8.8.8:53'' garbled_world))
               (fst (NewClient demo_env ''A'' ''8.8.8.8:53'' garbled_world)))
       = Some [''a.com'' \<mapsto> \<lparr>IPAddress = ''1.2.3.4'', Timestamp = 4400000000000\<rparr>]"
    by (simp add: demo_env_def demo_garbled)
  let ?E = "demo_env\<lparr>WriteFile := (\<lambda>k path. WriteError None)\<rparr>"
  from C9_persistence_absorbed[of demo_world "''A''" demo_env "''8.8.8.8:53''"
      "\<lambda>k path. WriteError None" 2 "''c.com''"]
  have "fst (QueryDNS ?E 2 ''c.com'' demo_world) = fst (QueryDNS demo_env 2 ''c.com'' demo_world)"
    and "clients (snd (QueryDNS ?E 2 ''c.com'' demo_world))
       = clients (snd (QueryDNS demo_env 2 ''c.com'' demo_world))"
    by blast+
  then have c: "fst (QueryDNS ?E 2 ''c.com'' demo_world) = Returns (''7.7.7.7'', None)"
    and d: "cache_get (Cache (clients (snd (QueryDNS ?E 2 ''c.com'' demo_world)) 2)) ''c.com''
       = Some \<lparr>IPAddress = ''7.7.7.7'', Timestamp = T0\<rparr>"
    by (simp_all add: demo_upstream_result demo_upstream_run cache_get_def)
  from h1 a h2 h3 b h4 h5 g c d show ?thesis
    by (intro conjI)
qed

text \<open>
  The snapshot \<open>null\<close> is read without an error and leaves the new client with the nil
  map for a cache.
\<close>

lemma demo_null_snapshot:
  "Cache (clients (snd (NewClient demo_env ''A'' ''8.8.8.8:53'' null_world))
            (fst (NewClient demo_env ''A'' ''8.8.8.8:53'' null_world))) = None"
  by (simp add: NewClient_def loadCache_def Let_def null_world_def initial_world_def
      demo_env_def demo_unmarshal_def)







section \<open>Group assignment\<close>

lemma find_space_find:
  "find_space G gs = List.find (\<lambda>g. length (Clients (G g)) < GroupSize) gs"
  by (induction gs) simp_all

lemma find_space_None:
  "(find_space G gs = None) = (\<forall>g\<in>set gs. \<not> length (Clients (G g)) < GroupSize)"
  by (induction gs) simp_all

lemma find_space_append:
  "\<forall>g\<in>set gs. \<not> length (Clients (G g)) < GroupSize \<Longrightarrow>
   find_space G (gs @ rest) = find_space G rest"
  by (induction gs) simp_all

lemma find_space_SomeD:
  "find_space G gs = Some g \<Longrightarrow> g \<in> set gs \<and> length (Clients (G g)) < GroupSize"
  by (induction gs) (auto split: if_splits)

lemma Suc_div_mod_new:
  "n mod GroupSize = 0 \<Longrightarrow>
   Suc n div GroupSize = n div GroupSize \<and> Suc n mod GroupSize = 1"
  by (simp add: mod_Suc div_Suc GroupSize_def)

lemma Suc_div_mod_full:
  "Suc (n mod GroupSize) = GroupSize \<Longrightarrow>
   Suc n div GroupSize = Suc (n div GroupSize) \<and> Suc n mod GroupSize = 0"
  by (simp add: mod_Suc div_Suc)

lemma Suc_div_mod_fill:
  "Suc (n mod GroupSize) \<noteq> GroupSize \<Longrightarrow>
   Suc n div GroupSize = n div GroupSize \<and> Suc n mod GroupSize = Suc (n mod GroupSize)"
  by (simp add: mod_Suc div_Suc)

lemma shape_Suc_new:
  assumes "n mod GroupSize = 0"
  shows "shape n = replicate (n div GroupSize) GroupSize" and "shape (Suc n) = shape n @ [1]"
  using assms Suc_div_mod_new[OF assms] by (simp_all add: shape_def)

lemma shape_Suc_fill:
  assumes "n mod GroupSize \<noteq> 0"
  shows "shape n = replicate (n div GroupSize) GroupSize @ [n mod GroupSize]"
    and "shape (Suc n) = replicate (n div GroupSize) GroupSize @ [Suc (n mod GroupSize)]"
proof -
  show "shape n = replicate (n div GroupSize) GroupSize @ [n mod GroupSize]"
    using assms by (simp add: shape_def)
  show "shape (Suc n) = replicate (n div GroupSize) GroupSize @ [Suc (n mod GroupSize)]"
  proof (cases "Suc (n mod GroupSize) = GroupSize")
    case True
    from Suc_div_mod_full[OF True] True show ?thesis
      by (simp add: shape_def replicate_append_same)
  next
    case False
    from Suc_div_mod_fill[OF False] show ?thesis
      by (simp add: shape_def)
  qed
qed

lemma map_replicateD:
  assumes "map f xs = replicate k c" and "x \<in> set xs"
  shows "f x = c"
proof -
  from assms(2) have "f x \<in> set (map f xs)" by simp
  with assms(1) show ?thesis by (simp split: if_splits)
qed

text \<open>What one assignment does to the list of sizes.\<close>

lemma add_new:
  assumes none: "find_space (groups w) (Groups gm) = None"
    and below: "\<forall>g\<in>set (Groups gm). g < gnext w"
  shows "Groups (fst (AddClientToGroup gm c w)) = Groups gm @ [gnext w]"
    and "gnext (snd (AddClientToGroup gm c w)) = Suc (gnext w)"
    and "sizes (fst (AddClientToGroup gm c w)) (snd (AddClientToGroup gm c w))
           = sizes gm w @ [1]"
proof -
  from below have other: "\<forall>g\<in>set (Groups gm). g \<noteq> gnext w" by auto
  show "Groups (fst (AddClientToGroup gm c w)) = Groups gm @ [gnext w]"
    and "gnext (snd (AddClientToGroup gm c w)) = Suc (gnext w)"
    using none by (simp_all add: AddClientToGroup_def Let_def set_group_def)
  show "sizes (fst (AddClientToGroup gm c w)) (snd (AddClientToGroup gm c w))
           = sizes gm w @ [1]"
    using none other
    by (simp add: AddClientToGroup_def Let_def set_group_def sizes_def)
qed

lemma add_fill:
  assumes last: "Groups gm = gs @ [g]"
    and dist: "distinct (Groups gm)"
    and full: "\<forall>h\<in>set gs. \<not> length (Clients (groups w h)) < GroupSize"
    and room: "length (Clients (groups w g)) < GroupSize"
  shows "Groups (fst (AddClientToGroup gm c w)) = Groups gm"
    and "gnext (snd (AddClientToGroup gm c w)) = gnext w"
    and "sizes (fst (AddClientToGroup gm c w)) (snd (AddClientToGroup gm c w))
           = map (\<lambda>g. length (Clients (groups w g))) gs @ [Suc (length (Clients (groups w g)))]"
proof -
  have found: "find_space (groups w) (Groups gm) = Some g"
    using find_space_append[OF full, of "[g]"] room last by simp
  from last dist have other: "\<forall>h\<in>set gs. h \<noteq> g" by auto
  show "Groups (fst (AddClientToGroup gm c w)) = Groups gm"
    and "gnext (snd (AddClientToGroup gm c w)) = gnext w"
    using found by (simp_all add: AddClientToGroup_def set_group_def)
  show "sizes (fst (AddClientToGroup gm c w)) (snd (AddClientToGroup gm c w))
           = map (\<lambda>g. length (Clients (groups w g))) gs @ [Suc (length (Clients (groups w g)))]"
    using found last other
    by (simp add: AddClientToGroup_def set_group_def sizes_def)
qed

text \<open>The invariant of a run of assignments that started from the empty manager.\<close>

lemma add_step:
  assumes dist: "distinct (Groups gm)"
    and below: "\<forall>g\<in>set (Groups gm). g < gnext w"
    and sz: "sizes gm w = shape n"
  shows "distinct (Groups (fst (AddClientToGroup gm c w)))
         \<and> (\<forall>g\<in>set (Groups (fst (AddClientToGroup gm c w))).
               g < gnext (snd (AddClientToGroup gm c w)))
         \<and> sizes (fst (AddClientToGroup gm c w)) (snd (AddClientToGroup gm c w))
             = shape (Suc n)"
proof (cases "n mod GroupSize = 0")
  case True
  from sz shape_Suc_new(1)[OF True]
  have "map (\<lambda>g. length (Clients (groups w g))) (Groups gm)
          = replicate (n div GroupSize) GroupSize"
    by (simp add: sizes_def)
  then have "\<forall>g\<in>set (Groups gm). length (Clients (groups w g)) = GroupSize"
    by (blast dest: map_replicateD)
  then have none: "find_space (groups w) (Groups gm) = None"
    by (simp add: find_space_None)
  from below have "gnext w \<notin> set (Groups gm)" by auto
  with add_new[OF none below, of c] dist below sz shape_Suc_new(2)[OF True]
  show ?thesis by (auto simp: less_Suc_eq)
next
  case False
  let ?k = "n div GroupSize"
  let ?f = "\<lambda>g. length (Clients (groups w g))"
  from sz shape_Suc_fill(1)[OF False]
  have "map ?f (Groups gm) = replicate ?k GroupSize @ [n mod GroupSize]"
    by (simp add: sizes_def)
  then obtain gs g where last: "Groups gm = gs @ [g]"
    and full: "map ?f gs = replicate ?k GroupSize" and r: "?f g = n mod GroupSize"
    by (auto simp: map_eq_append_conv map_eq_Cons_conv)
  have "\<forall>h\<in>set gs. ?f h = GroupSize"
    using full by (blast dest: map_replicateD)
  then have full': "\<forall>h\<in>set gs. \<not> ?f h < GroupSize" by simp
  have room: "?f g < GroupSize"
    using r by (simp add: GroupSize_def)
  from add_fill[OF last dist full' room, of c] dist below full r shape_Suc_fill(2)[OF False]
  show ?thesis by simp
qed

lemma add_all_sizes:
  assumes "distinct (Groups gm)"
    and "\<forall>g\<in>set (Groups gm). g < gnext w"
    and "sizes gm w = shape n"
  shows "distinct (Groups (fst (add_all gm cs w)))
         \<and> (\<forall>g\<in>set (Groups (fst (add_all gm cs w))). g < gnext (snd (add_all gm cs w)))
         \<and> sizes (fst (add_all gm cs w)) (snd (add_all gm cs w)) = shape (n + length cs)"
  using assms
proof (induction cs arbitrary: gm w n)
  case Nil
  then show ?case by simp
next
  case (Cons c cs)
  let ?gm = "fst (AddClientToGroup gm c w)"
  let ?w = "snd (AddClientToGroup gm c w)"
  from add_step[OF Cons.prems, of c]
  have "distinct (Groups ?gm)" "\<forall>g\<in>set (Groups ?gm). g < gnext ?w"
    "sizes ?gm ?w = shape (Suc n)"
    by simp_all
  from Cons.IH[OF this] show ?case
    by (simp add: split_beta)
qed

lemma sizes_from_empty:
  "sizes (fst (add_all empty_manager cs w)) (snd (add_all empty_manager cs w))
     = shape (length cs)"
proof -
  have "sizes empty_manager w = shape 0"
    by (simp add: sizes_def shape_def empty_manager_def)
  moreover have "distinct (Groups empty_manager)" "\<forall>g\<in>set (Groups empty_manager). g < gnext w"
    by (simp_all add: empty_manager_def)
  ultimately show ?thesis
    using add_all_sizes[of empty_manager w 0 cs] by simp
qed

lemma shape_33: "shape (GroupSize * 2 + 3) = [15, 15, 3]"
  by (simp add: shape_def GroupSize_def numeral_2_eq_2)

lemma shape_full: "Suc i < length (shape n) \<Longrightarrow> shape n ! i = GroupSize"
  by (auto simp: shape_def nth_append split: if_splits)

lemma shape_nonempty: "0 < n \<Longrightarrow> shape n \<noteq> []"
  using div_mult_mod_eq[of n GroupSize]
  by (cases "n div GroupSize = 0") (auto simp: shape_def)

lemma shape_last: "shape n \<noteq> [] \<Longrightarrow> 1 \<le> last (shape n) \<and> last (shape n) \<le> GroupSize"
  by (auto simp: shape_def GroupSize_def split: if_splits)

lemma shape_le: "x \<in> set (shape n) \<Longrightarrow> x \<le> GroupSize"
  by (auto simp: shape_def GroupSize_def split: if_splits)

lemma capacity_from_empty:
  assumes "g \<in> set (Groups (fst (add_all empty_manager cs w)))"
  shows "length (Clients (groups (snd (add_all empty_manager cs w)) g)) \<le> GroupSize"
proof -
  from assms
  have "length (Clients (groups (snd (add_all empty_manager cs w)) g))
          \<in> set (sizes (fst (add_all empty_manager cs w)) (snd (add_all empty_manager cs w)))"
    by (simp add: sizes_def)
  then show ?thesis
    by (simp add: sizes_from_empty shape_le)
qed

text \<open>
  C6. Assignment is first-fit with a capacity of 15: the loop finds the first group, in
  creation order, with fewer than \<open>GroupSize\<close> clients; when there is one the client is
  appended to it and points back to it; when there is none a new group is appended to
  the manager, named \<open>Group-\<close> and the number of groups so far plus one, holding only
  that client. After any run of assignments from the empty manager the sizes, in
  creation order, are full groups followed by at most one group with the rest: 33
  clients give 15, 15, 3; every group but the last created has exactly \<open>GroupSize\<close>
  clients, and the last has between 1 and \<open>GroupSize\<close>.
\<close>

theorem C6_first_fit:
  "GroupSize = 15
   \<and> find_space (groups w) (Groups gm)
       = List.find (\<lambda>g. length (Clients (groups w g)) < GroupSize) (Groups gm)
   \<and> (\<forall>g. find_space (groups w) (Groups gm) = Some g \<longrightarrow>
         Groups (fst (AddClientToGroup gm c w)) = Groups gm
         \<and> groups (snd (AddClientToGroup gm c w))
             = (groups w)(g := (groups w g)\<lparr>Clients := Clients (groups w g) @ [c]\<rparr>)
         \<and> Group (clients (snd (AddClientToGroup gm c w)) c) = Some g)
   \<and> (find_space (groups w) (Groups gm) = None \<longrightarrow>
         Groups (fst (AddClientToGroup gm c w)) = Groups gm @ [gnext w]
         \<and> groups (snd (AddClientToGroup gm c w))
             = (groups w)(gnext w :=
                 \<lparr>Group.ID = ''Group-'' @ show_nat (length (Groups gm) + 1), Clients = [c]\<rparr>)
         \<and> Group (clients (snd (AddClientToGroup gm c w)) c) = Some (gnext w))
   \<and> sizes (fst (add_all empty_manager cs w)) (snd (add_all empty_manager cs w))
       = shape (length cs)
   \<and> (length cs = GroupSize * 2 + 3 \<longrightarrow>
         sizes (fst (add_all empty_manager cs w)) (snd (add_all empty_manager cs w))
           = [15, 15, 3])
   \<and> (\<forall>i. Suc i < length (sizes (fst (add_all empty_manager cs w))
                                 (snd (add_all empty_manager cs w))) \<longrightarrow>
         sizes (fst (add_all empty_manager cs w)) (snd (add_all empty_manager cs w)) ! i
           = GroupSize)
   \<and> (cs \<noteq> [] \<longrightarrow>
         1 \<le> last (sizes (fst (add_all empty_manager cs w)) (snd (add_all empty_manager cs w)))
         \<and> last (sizes (fst (add_all empty_manager cs w)) (snd (add_all empty_manager cs w)))
             \<le> GroupSize)"
proof -
  have a: "\<forall>g. find_space (groups w) (Groups gm) = Some g \<longrightarrow>
         Groups (fst (AddClientToGroup gm c w)) = Groups gm
         \<and> groups (snd (AddClientToGroup gm c w))
             = (groups w)(g := (groups w g)\<lparr>Clients := Clients (groups w g) @ [c]\<rparr>)
         \<and> Group (clients (snd (AddClientToGroup gm c w)) c) = Some g"
    by (simp add: AddClientToGroup_def set_group_def)
  have b: "find_space (groups w) (Groups gm) = None \<longrightarrow>
         Groups (fst (AddClientToGroup gm c w)) = Groups gm @ [gnext w]
         \<and> groups (snd (AddClientToGroup gm c w))
             = (groups w)(gnext w :=
                 \<lparr>Group.ID = ''Group-'' @ show_nat (length (Groups gm) + 1), Clients = [c]\<rparr>)
         \<and> Group (clients (snd (AddClientToGroup gm c w)) c) = Some (gnext w)"
    by (simp add: AddClientToGroup_def set_group_def Let_def)
  have d: "length cs = GroupSize * 2 + 3 \<longrightarrow>
         sizes (fst (add_all empty_manager cs w)) (snd (add_all empty_manager cs w))
           = [15, 15, 3]"
    using shape_33 by (simp add: sizes_from_empty)
  have e: "\<forall>i. Suc i < length (sizes (fst (add_all empty_manager cs w))
                                 (snd (add_all empty_manager cs w))) \<longrightarrow>
         sizes (fst (add_all empty_manager cs w)) (snd (add_all empty_manager cs w)) ! i
           = GroupSize"
    by (simp add: sizes_from_empty shape_full)
  have "cs \<noteq> [] \<longrightarrow> shape (length cs) \<noteq> []"
    using shape_nonempty[of "length cs"] by simp
  then have f: "cs \<noteq> [] \<longrightarrow>
         1 \<le> last (sizes (fst (add_all empty_manager cs w)) (snd (add_all empty_manager cs w)))
         \<and> last (sizes (fst (add_all empty_manager cs w)) (snd (add_all empty_manager cs w)))
             \<le> GroupSize"
    using shape_last[of "length cs"] by (simp add: sizes_from_empty)
  show ?thesis
    by (rule conjI[OF GroupSize_def conjI[OF find_space_find
          conjI[OF a conjI[OF b conjI[OF sizes_from_empty conjI[OF d conjI[OF e f]]]]]]])
qed

lemma digit_1: "digit (Suc 0) = CHR ''1''"
  by code_simp

lemma show_nat_1: "show_nat (Suc 0) = ''1''"
  by (simp add: show_nat.simps digit_1)

text \<open>The first assignment opens \<open>Group-1\<close>; thirty-three clients fill 15, 15, 3.\<close>

theorem C6_first_fit_witness:
  "find_space (groups initial_world) (Groups empty_manager) = None
   \<and> groups (snd (AddClientToGroup empty_manager 7 initial_world)) 0
       = \<lparr>Group.ID = ''Group-1'', Clients = [7]\<rparr>
   \<and> length thirty_three = GroupSize * 2 + 3
   \<and> sizes (fst (add_all empty_manager thirty_three initial_world))
           (snd (add_all empty_manager thirty_three initial_world)) = [15, 15, 3]
   \<and> Suc 0 < length (sizes (fst (add_all empty_manager thirty_three initial_world))
                            (snd (add_all empty_manager thirty_three initial_world)))
   \<and> sizes (fst (add_all empty_manager thirty_three initial_world))
           (snd (add_all empty_manager thirty_three initial_world)) ! 0 = GroupSize"
proof -
  have h1: "find_space (groups initial_world) (Groups empty_manager) = None"
    by (simp add: empty_manager_def)
  have h2: "length thirty_three = GroupSize * 2 + 3"
    by (simp add: thirty_three_def GroupSize_def)
  note c6 = C6_first_fit[of initial_world empty_manager 7 thirty_three]
  from c6 h1 have "groups (snd (AddClientToGroup empty_manager 7 initial_world))
      = (groups initial_world)(gnext initial_world :=
           \<lparr>Group.ID = ''Group-'' @ show_nat (length (Groups empty_manager) + 1),
            Clients = [7]\<rparr>)"
    by blast
  then have g: "groups (snd (AddClientToGroup empty_manager 7 initial_world)) 0
       = \<lparr>Group.ID = ''Group-1'', Clients = [7]\<rparr>"
    by (simp add: initial_world_def empty_manager_def show_nat_1)
  from c6 h2 have s: "sizes (fst (add_all empty_manager thirty_three initial_world))
           (snd (add_all empty_manager thirty_three initial_world)) = [15, 15, 3]"
    by blast
  then have l: "Suc 0 < length (sizes (fst (add_all empty_manager thirty_three initial_world))
                            (snd (add_all empty_manager thirty_three initial_world)))"
    by simp
  with c6 have "sizes (fst (add_all empty_manager thirty_three initial_world))
           (snd (add_all empty_manager thirty_three initial_world)) ! 0 = GroupSize"
    by blast
  with h1 g h2 s l show ?thesis
    by (intro conjI)
qed

section \<open>Membership\<close>

lemma assigned_step:
  assumes inv: "assigned gm w S" and new: "c \<notin> S"
  shows "assigned (fst (AddClientToGroup gm c w)) (snd (AddClientToGroup gm c w)) (insert c S)"
proof (cases "find_space (groups w) (Groups gm)")
  case None
  let ?g = "gnext w"
  let ?G = "\<lparr>Group.ID = ''Group-'' @ show_nat (length (Groups gm) + 1), Clients = [c]\<rparr>"
  have gm': "fst (AddClientToGroup gm c w) = gm\<lparr>Groups := Groups gm @ [?g]\<rparr>"
    and gr: "groups (snd (AddClientToGroup gm c w)) = (groups w)(?g := ?G)"
    and cl: "clients (snd (AddClientToGroup gm c w))
               = (clients w)(c := (clients w c)\<lparr>Group := Some ?g\<rparr>)"
    and gn: "gnext (snd (AddClientToGroup gm c w)) = Suc ?g"
    using None by (simp_all add: AddClientToGroup_def Let_def set_group_def)
  from inv have fresh: "?g \<notin> set (Groups gm)"
    by (auto simp: assigned_def)
  from inv new have notc: "\<forall>g\<in>set (Groups gm). c \<notin> set (Clients (groups w g))"
    by (auto simp: assigned_def)
  have cover: "\<exists>h\<in>set (Groups gm @ [?g]). x \<in> set (Clients (((groups w)(?g := ?G)) h))"
    if "x \<in> insert c S" for x
  proof (cases "x = c")
    case True
    then show ?thesis by simp
  next
    case False
    with that inv obtain h where "h \<in> set (Groups gm)" "x \<in> set (Clients (groups w h))"
      by (auto simp: assigned_def)
    with fresh show ?thesis by auto
  qed
  show ?thesis
    unfolding assigned_def gm' gr cl gn
    apply (intro conjI)
    subgoal using inv fresh by (simp add: assigned_def)
    subgoal using inv fresh notc by (auto simp: assigned_def GroupSize_def less_Suc_eq)
    subgoal using cover by simp
    done
next
  case (Some g)
  let ?G = "(groups w g)\<lparr>Clients := Clients (groups w g) @ [c]\<rparr>"
  have gm': "fst (AddClientToGroup gm c w) = gm"
    and gr: "groups (snd (AddClientToGroup gm c w)) = (groups w)(g := ?G)"
    and cl: "clients (snd (AddClientToGroup gm c w))
               = (clients w)(c := (clients w c)\<lparr>Group := Some g\<rparr>)"
    and gn: "gnext (snd (AddClientToGroup gm c w)) = gnext w"
    using Some by (simp_all add: AddClientToGroup_def set_group_def)
  from find_space_SomeD[OF Some] have g: "g \<in> set (Groups gm)"
    and room: "length (Clients (groups w g)) < GroupSize"
    by simp_all
  from inv new have notc: "\<forall>g\<in>set (Groups gm). c \<notin> set (Clients (groups w g))"
    by (auto simp: assigned_def)
  have cover: "\<exists>h\<in>set (Groups gm). x \<in> set (Clients (((groups w)(g := ?G)) h))"
    if "x \<in> insert c S" for x
  proof (cases "x = c")
    case True
    with g show ?thesis by auto
  next
    case False
    with that inv obtain h where "h \<in> set (Groups gm)" "x \<in> set (Clients (groups w h))"
      by (auto simp: assigned_def)
    then show ?thesis by (cases "h = g") auto
  qed
  show ?thesis
    unfolding assigned_def gm' gr cl gn
    apply (intro conjI)
    subgoal using inv by (simp add: assigned_def)
    subgoal using inv g room notc by (auto simp: assigned_def)
    subgoal using cover by simp
    done
qed

lemma assigned_add_all:
  assumes "assigned gm w S" and "distinct cs" and "set cs \<inter> S = {}"
  shows "assigned (fst (add_all gm cs w)) (snd (add_all gm cs w)) (S \<union> set cs)"
  using assms
proof (induction cs arbitrary: gm w S)
  case Nil
  then show ?case by simp
next
  case (Cons c cs)
  let ?gm = "fst (AddClientToGroup gm c w)"
  let ?w = "snd (AddClientToGroup gm c w)"
  from Cons.prems have "c \<notin> S" by simp
  from assigned_step[OF Cons.prems(1) this]
  have 1: "assigned ?gm ?w (insert c S)" .
  from Cons.prems have 2: "distinct cs" and 3: "set cs \<inter> insert c S = {}"
    by auto
  from Cons.IH[OF 1 2 3] show ?case
    by (simp add: split_beta)
qed

lemma assigned_empty: "assigned empty_manager w {}"
  by (simp add: assigned_def empty_manager_def)

text \<open>
  C7, as amended. After any run of assignments from the empty manager no group has more
  than \<open>GroupSize\<close> members. When the clients assigned are pairwise distinct, each of them
  is a member of exactly one group, its \<open>Group\<close> field points to that group, no group
  lists a client twice, and the groups of the manager are distinct.
\<close>

theorem C7_membership:
  assumes run: "add_all empty_manager cs w = (gm', w')"
  shows "(\<forall>g\<in>set (Groups gm'). length (Clients (groups w' g)) \<le> GroupSize)
         \<and> (distinct cs \<longrightarrow>
              (\<forall>c\<in>set cs. \<exists>!g. g \<in> set (Groups gm') \<and> c \<in> set (Clients (groups w' g)))
              \<and> (\<forall>c\<in>set cs. \<forall>g\<in>set (Groups gm').
                    c \<in> set (Clients (groups w' g)) \<longrightarrow> Group (clients w' c) = Some g)
              \<and> (\<forall>g\<in>set (Groups gm'). distinct (Clients (groups w' g)))
              \<and> distinct (Groups gm'))"
proof -
  have cap: "\<forall>g\<in>set (Groups gm'). length (Clients (groups w' g)) \<le> GroupSize"
    using capacity_from_empty[of _ cs w] run by simp
  have mem: "(\<forall>c\<in>set cs. \<exists>!g. g \<in> set (Groups gm') \<and> c \<in> set (Clients (groups w' g)))
              \<and> (\<forall>c\<in>set cs. \<forall>g\<in>set (Groups gm').
                    c \<in> set (Clients (groups w' g)) \<longrightarrow> Group (clients w' c) = Some g)
              \<and> (\<forall>g\<in>set (Groups gm'). distinct (Clients (groups w' g)))
              \<and> distinct (Groups gm')"
    if dist: "distinct cs"
  proof -
    from assigned_add_all[OF assigned_empty dist, of w] run
    have inv: "assigned gm' w' (set cs)" by simp
    have bref: "\<forall>c\<in>set cs. \<forall>g\<in>set (Groups gm').
                 c \<in> set (Clients (groups w' g)) \<longrightarrow> Group (clients w' c) = Some g"
      using inv by (auto simp: assigned_def)
    have one: "\<exists>!g. g \<in> set (Groups gm') \<and> c \<in> set (Clients (groups w' g))"
      if c: "c \<in> set cs" for c
    proof -
      from inv c obtain g where g: "g \<in> set (Groups gm')" "c \<in> set (Clients (groups w' g))"
        by (auto simp: assigned_def)
      show ?thesis
      proof (rule ex1I[of _ g])
        show "g \<in> set (Groups gm') \<and> c \<in> set (Clients (groups w' g))"
          using g by simp
      next
        fix h
        assume h: "h \<in> set (Groups gm') \<and> c \<in> set (Clients (groups w' h))"
        with bref c have "Group (clients w' c) = Some h" by blast
        moreover from bref c g have "Group (clients w' c) = Some g" by blast
        ultimately show "h = g" by simp
      qed
    qed
    then have one': "\<forall>c\<in>set cs. \<exists>!g. g \<in> set (Groups gm') \<and> c \<in> set (Clients (groups w' g))"
      by blast
    have dc: "\<forall>g\<in>set (Groups gm'). distinct (Clients (groups w' g))"
      using inv by (auto simp: assigned_def)
    have dg: "distinct (Groups gm')"
      using inv by (simp add: assigned_def)
    show ?thesis
      by (rule conjI[OF one' conjI[OF bref conjI[OF dc dg]]])
  qed
  show ?thesis
    using cap mem by (intro conjI impI) blast+
qed

text \<open>
  C7 as stated speaks of any sequence of calls. AddClientToGroup does not look whether
  the client is assigned already: when client 0 is passed again after the first group
  has filled up, it is put into a second group as well and is then a member of both.
\<close>

theorem C7_repeated_client_counterexample:
  "Groups (fst (add_all empty_manager sixteen_calls initial_world)) = [0, 1]
   \<and> Clients (groups (snd (add_all empty_manager sixteen_calls initial_world)) 0)
       = [0, 1, 2, 3, 4, 5, 6, 7, 8, 9, 10, 11, 12, 13, 14]
   \<and> Clients (groups (snd (add_all empty_manager sixteen_calls initial_world)) 1) = [0]
   \<and> Group (clients (snd (add_all empty_manager sixteen_calls initial_world)) 0) = Some 1"
  by (simp add: sixteen_calls_def empty_manager_def initial_world_def AddClientToGroup_def
      set_group_def GroupSize_def Let_def)

text \<open>Thirty-three distinct clients: client 20 is in exactly one group.\<close>

theorem C7_membership_witness:
  "distinct thirty_three
   \<and> add_all empty_manager thirty_three initial_world
       = (fst (add_all empty_manager thirty_three initial_world),
          snd (add_all empty_manager thirty_three initial_world))
   \<and> 20 \<in> set thirty_three
   \<and> (\<exists>!g. g \<in> set (Groups (fst (add_all empty_manager thirty_three initial_world)))
            \<and> 20 \<in> set (Clients (groups (snd (add_all empty_manager thirty_three initial_world)) g)))
   \<and> distinct (Groups (fst (add_all empty_manager thirty_three initial_world)))"
proof -
  have h1: "distinct thirty_three"
    by (simp add: thirty_three_def)
  have h2: "add_all empty_manager thirty_three initial_world
       = (fst (add_all empty_manager thirty_three initial_world),
          snd (add_all empty_manager thirty_three initial_world))"
    by simp
  have h3: "20 \<in> set thirty_three"
    by (simp add: thirty_three_def)
  from C7_membership[OF h2] h1 h3
  have "(\<exists>!g. g \<in> set (Groups (fst (add_all empty_manager thirty_three initial_world)))
            \<and> 20 \<in> set (Clients (groups (snd (add_all empty_manager thirty_three initial_world)) g)))
   \<and> distinct (Groups (fst (add_all empty_manager thirty_three initial_world)))"
    by blast
  with h1 h2 h3 show ?thesis by blast
qed

end
